theory Spec2Isabelle
  imports Complex_Main "HOL-Library.Log_Nat"
begin

section \<open>ECMAScript Number values\<close>

text \<open>
  The durations, progress fractions and percentages of \<^verbatim>\<open>src/index.tsx\<close> are ECMAScript
  Numbers (IEEE 754 binary64). \<open>Finite q\<close> is the finite Number whose mathematical value is
  \<open>q\<close>; the two zeros are identified, since no operation of the program tells them apart
  (\<^verbatim>\<open>toString\<close> prints both as \<^verbatim>\<open>0\<close>, \<^verbatim>\<open><=\<close> treats them as equal).
\<close>

datatype number = NaN | PosInfinity | NegInfinity | Finite rat

text \<open>\<open>floorlog2 q\<close> is the integer \<open>L\<close> with \<open>2 powi L \<le> q < 2 powi (L + 1)\<close>, for \<open>q > 0\<close>.\<close>

definition floorlog2 :: "rat \<Rightarrow> int" where
  "floorlog2 q = (if 1 \<le> q then bitlen \<lfloor>q\<rfloor> - 1 else - bitlen (\<lceil>1 / q\<rceil> - 1))"

definition round_ties_even :: "rat \<Rightarrow> int" where
  "round_ties_even x = (let f = \<lfloor>x\<rfloor>; r = x - of_int f in
     if r < 1 / 2 then f else if 1 / 2 < r then f + 1 else if even f then f else f + 1)"

text \<open>
  The exponent of the unit in the last place: 53 significant bits, and the subnormal range
  starting at \<open>2 powi (- 1074)\<close>.
\<close>

definition ulp_exponent :: "rat \<Rightarrow> int" where
  "ulp_exponent q = max (floorlog2 \<bar>q\<bar> - 52) (- 1074)"

definition round_binary64 :: "rat \<Rightarrow> rat" where
  "round_binary64 q = (if q = 0 then 0 else
     (let e = ulp_exponent q in of_int (round_ties_even (q / 2 powi e)) * 2 powi e))"

text \<open>
  The Number value for a mathematical value: round to nearest, ties to even; a result of
  magnitude \<open>2 ^ 1024\<close> or more is an infinity.
\<close>

definition Number_value :: "rat \<Rightarrow> number" where
  "Number_value q = (let v = round_binary64 q in
     if 2 ^ 1024 \<le> v then PosInfinity else if v \<le> - (2 ^ 1024) then NegInfinity else Finite v)"

fun Number_unaryMinus :: "number \<Rightarrow> number" where
  "Number_unaryMinus NaN = NaN"
| "Number_unaryMinus PosInfinity = NegInfinity"
| "Number_unaryMinus NegInfinity = PosInfinity"
| "Number_unaryMinus (Finite a) = Finite (- a)"

fun Number_add :: "number \<Rightarrow> number \<Rightarrow> number" where
  "Number_add NaN y = NaN"
| "Number_add x NaN = NaN"
| "Number_add PosInfinity NegInfinity = NaN"
| "Number_add NegInfinity PosInfinity = NaN"
| "Number_add PosInfinity y = PosInfinity"
| "Number_add NegInfinity y = NegInfinity"
| "Number_add (Finite a) PosInfinity = PosInfinity"
| "Number_add (Finite a) NegInfinity = NegInfinity"
| "Number_add (Finite a) (Finite b) = Number_value (a + b)"

definition Number_subtract :: "number \<Rightarrow> number \<Rightarrow> number" where
  "Number_subtract x y = Number_add x (Number_unaryMinus y)"

fun Number_multiply :: "number \<Rightarrow> number \<Rightarrow> number" where
  "Number_multiply NaN y = NaN"
| "Number_multiply x NaN = NaN"
| "Number_multiply PosInfinity PosInfinity = PosInfinity"
| "Number_multiply PosInfinity NegInfinity = NegInfinity"
| "Number_multiply NegInfinity PosInfinity = NegInfinity"
| "Number_multiply NegInfinity NegInfinity = PosInfinity"
| "Number_multiply PosInfinity (Finite b) =
     (if b = 0 then NaN else if 0 < b then PosInfinity else NegInfinity)"
| "Number_multiply NegInfinity (Finite b) =
     (if b = 0 then NaN else if 0 < b then NegInfinity else PosInfinity)"
| "Number_multiply (Finite a) PosInfinity =
     (if a = 0 then NaN else if 0 < a then PosInfinity else NegInfinity)"
| "Number_multiply (Finite a) NegInfinity =
     (if a = 0 then NaN else if 0 < a then NegInfinity else PosInfinity)"
| "Number_multiply (Finite a) (Finite b) = Number_value (a * b)"

text \<open>The relational operator \<^verbatim>\<open><=\<close> on Numbers: false as soon as an operand is NaN.\<close>

fun Number_le :: "number \<Rightarrow> number \<Rightarrow> bool" where
  "Number_le NaN y = False"
| "Number_le x NaN = False"
| "Number_le NegInfinity y = True"
| "Number_le x PosInfinity = True"
| "Number_le PosInfinity y = False"
| "Number_le (Finite a) NegInfinity = False"
| "Number_le (Finite a) (Finite b) = (a \<le> b)"

text \<open>The relational operator \<^verbatim>\<open>>\<close>: \<open>x > y\<close> is \<open>y < x\<close>, false when an operand is NaN.\<close>

fun Number_gt :: "number \<Rightarrow> number \<Rightarrow> bool" where
  "Number_gt NaN y = False"
| "Number_gt x NaN = False"
| "Number_gt PosInfinity PosInfinity = False"
| "Number_gt PosInfinity y = True"
| "Number_gt NegInfinity y = False"
| "Number_gt (Finite a) PosInfinity = False"
| "Number_gt (Finite a) NegInfinity = True"
| "Number_gt (Finite a) (Finite b) = (b < a)"

text \<open>\<^verbatim>\<open>Math.round\<close>: the closest integral Number, a tie going towards \<open>+\<infinity>\<close>.\<close>

fun Math_round :: "number \<Rightarrow> number" where
  "Math_round (Finite q) = Finite (of_int \<lfloor>q + 1 / 2\<rfloor>)"
| "Math_round x = x"

subsection \<open>Number to String\<close>

text \<open>
  \<^verbatim>\<open>Number.prototype.toString()\<close> in radix 10 (ECMAScript, Number::toString): the shortest
  digit string \<open>s\<close> of \<open>k\<close> digits with \<open>s * 10 powi (n - k)\<close> rounding to the Number, the
  closest one when several exist, laid out as a plain decimal for \<open>- 6 < n \<le> 21\<close> and in
  exponent notation otherwise.
\<close>

definition floorlog10 :: "rat \<Rightarrow> int" where
  "floorlog10 q = (if 1 \<le> q then int (floorlog 10 (nat \<lfloor>q\<rfloor>)) - 1
     else - int (floorlog 10 (nat (\<lceil>1 / q\<rceil> - 1))))"

function digits :: "int \<Rightarrow> string" where
  "digits n = (if n < 10 then [''0123456789'' ! nat n]
     else digits (n div 10) @ [''0123456789'' ! nat (n mod 10)])"
  by pat_completeness auto
termination
  by (relation "measure nat") auto

declare digits.simps [simp del]

text \<open>
  The two \<open>k\<close>-digit candidates \<open>(n, s)\<close> around \<open>q\<close>, where \<open>10 powi (n0 - 1) \<le> q < 10 powi n0\<close>:
  the one at or below \<open>q\<close> and the next one above (which carries into \<open>n0 + 1\<close> after
  \<open>99\<dots>9\<close>).
\<close>

definition candidates :: "rat \<Rightarrow> int \<Rightarrow> nat \<Rightarrow> (int \<times> int) list" where
  "candidates q n0 k = (let s = \<lfloor>q / 10 powi (n0 - int k)\<rfloor> in
     [(n0, s), if s + 1 < 10 ^ k then (n0, s + 1) else (n0 + 1, 10 ^ (k - 1))])"

definition candidate_value :: "nat \<Rightarrow> int \<times> int \<Rightarrow> rat" where
  "candidate_value k c = (case c of (n, s) \<Rightarrow> of_int s * 10 powi (n - int k))"

definition closest :: "rat \<Rightarrow> nat \<Rightarrow> int \<times> int \<Rightarrow> int \<times> int \<Rightarrow> int \<times> int" where
  "closest q k lo hi = (let dl = q - candidate_value k lo; dh = candidate_value k hi - q in
     if dl < dh then lo else if dh < dl then hi else if even (snd lo) then lo else hi)"

function shortest :: "rat \<Rightarrow> int \<Rightarrow> nat \<Rightarrow> int \<times> nat \<times> int" where
  "shortest q n0 k =
     (if 17 \<le> k then
        (case candidates q n0 k of
           [lo, hi] \<Rightarrow> (case closest q k lo hi of (n, s) \<Rightarrow> (n, k, s))
         | _ \<Rightarrow> (n0, k, 0))
      else
        (case filter (\<lambda>c. Number_value (candidate_value k c) = Finite q) (candidates q n0 k) of
           [] \<Rightarrow> shortest q n0 (Suc k)
         | [c] \<Rightarrow> (fst c, k, snd c)
         | lo # hi # _ \<Rightarrow> (case closest q k lo hi of (n, s) \<Rightarrow> (n, k, s))))"
  by pat_completeness auto
termination
  by (relation "measure (\<lambda>(q, n0, k). 17 - k)") auto

declare shortest.simps [simp del]

definition Number_format :: "int \<Rightarrow> nat \<Rightarrow> string \<Rightarrow> string" where
  "Number_format n k ds =
     (if int k \<le> n \<and> n \<le> 21 then ds @ replicate (nat (n - int k)) CHR ''0''
      else if 0 < n \<and> n \<le> 21 then take (nat n) ds @ ''.'' @ drop (nat n) ds
      else if - 6 < n \<and> n \<le> 0 then ''0.'' @ replicate (nat (- n)) CHR ''0'' @ ds
      else (let e = n - 1; es = (if e < 0 then ''-'' else ''+'') @ digits \<bar>e\<bar> in
        if k = 1 then ds @ ''e'' @ es else take 1 ds @ ''.'' @ drop 1 ds @ ''e'' @ es))"

fun Number_toString :: "number \<Rightarrow> string" where
  "Number_toString NaN = ''NaN''"
| "Number_toString PosInfinity = ''Infinity''"
| "Number_toString NegInfinity = ''-Infinity''"
| "Number_toString (Finite q) =
     (if q = 0 then ''0''
      else (case shortest \<bar>q\<bar> (floorlog10 \<bar>q\<bar> + 1) 1 of (n, k, s) \<Rightarrow>
        (if q < 0 then ''-'' else '''') @ Number_format n k (digits s)))"

text \<open>
  A plain decimal seconds string: one or more digits, optionally followed by a point and one
  or more digits.
\<close>

definition is_digit :: "char \<Rightarrow> bool" where
  "is_digit c = (c \<in> set ''0123456789'')"

definition plain_decimal :: "string \<Rightarrow> bool" where
  "plain_decimal str =
     (let ip = takeWhile is_digit str; rest = dropWhile is_digit str in
      ip \<noteq> [] \<and> (rest = [] \<or> (hd rest = CHR ''.'' \<and> tl rest \<noteq> [] \<and> list_all is_digit (tl rest))))"

section \<open>Strings and the media-type table\<close>

text \<open>
  File names are ASCII strings here; \<^verbatim>\<open>toLowerCase\<close> maps \<^verbatim>\<open>A\<close>..\<^verbatim>\<open>Z\<close> to
  \<^verbatim>\<open>a\<close>..\<^verbatim>\<open>z\<close> and leaves every other character as it is.
\<close>

definition toLowerCase_char :: "char \<Rightarrow> char" where
  "toLowerCase_char c =
     (case map_of (zip ''ABCDEFGHIJKLMNOPQRSTUVWXYZ'' ''abcdefghijklmnopqrstuvwxyz'') c of
        Some l \<Rightarrow> l
      | None \<Rightarrow> c)"

definition toLowerCase :: "string \<Rightarrow> string" where
  "toLowerCase str = map toLowerCase_char str"

text \<open>\<^verbatim>\<open>str.split(sep)\<close> for a one-character separator: never an empty array.\<close>

fun split :: "char \<Rightarrow> string \<Rightarrow> string list" where
  "split sep [] = [[]]"
| "split sep (c # cs) =
     (if c = sep then [] # split sep cs
      else (case split sep cs of x # xs \<Rightarrow> (c # x) # xs | [] \<Rightarrow> [[c]]))"

text \<open>
  \<^verbatim>\<open>filename.split('.').pop()?.toLowerCase() || 'mp4'\<close>: \<^verbatim>\<open>pop\<close> returns the last
  element, and the empty string is falsy.
\<close>

definition getFileExtension :: "string \<Rightarrow> string" where
  "getFileExtension filename =
     (let ext = toLowerCase (last (split CHR ''.'' filename)) in
      if ext = [] then ''mp4'' else ext)"

text \<open>
  The values a property read on the table \<^verbatim>\<open>mimeTypes\<close> can produce. The table is an
  object literal, so \<^verbatim>\<open>mimeTypes[ext]\<close> is an ordinary property read: a key that is not an
  own property is looked up on \<^verbatim>\<open>Object.prototype\<close>, whose properties are built-in
  functions, \<^verbatim>\<open>constructor\<close> being the function \<^verbatim>\<open>Object\<close> and \<^verbatim>\<open>__proto__\<close> an
  accessor that returns the prototype of the table, \<^verbatim>\<open>Object.prototype\<close> itself.
\<close>

datatype jsvalue = Undefined | String string | BuiltinFunction string | ObjectPrototype

fun truthy :: "jsvalue \<Rightarrow> bool" where
  "truthy Undefined = False"
| "truthy (String str) = (str \<noteq> [])"
| "truthy (BuiltinFunction fn) = True"
| "truthy ObjectPrototype = True"

definition Object_prototype_get :: "string \<Rightarrow> jsvalue" where
  "Object_prototype_get key =
     (if key = ''constructor'' then BuiltinFunction ''Object''
      else if key = ''__proto__'' then ObjectPrototype
      else if key \<in> set [''__defineGetter__'', ''__defineSetter__'', ''hasOwnProperty'',
        ''__lookupGetter__'', ''__lookupSetter__'', ''isPrototypeOf'', ''propertyIsEnumerable'',
        ''toString'', ''valueOf'', ''toLocaleString''] then BuiltinFunction key
      else Undefined)"

definition mimeTypes :: "(string \<times> string) list" where
  "mimeTypes =
     [(''mp4'', ''video/mp4''),
      (''webm'', ''video/webm''),
      (''avi'', ''video/x-msvideo''),
      (''mov'', ''video/quicktime''),
      (''mkv'', ''video/x-matroska''),
      (''flv'', ''video/x-flv''),
      (''wmv'', ''video/x-ms-wmv'')]"

definition mimeTypes_get :: "string \<Rightarrow> jsvalue" where
  "mimeTypes_get key =
     (case map_of mimeTypes key of Some v \<Rightarrow> String v | None \<Rightarrow> Object_prototype_get key)"

text \<open>\<^verbatim>\<open>return mimeTypes[ext] || 'video/mp4'\<close>\<close>

definition getMimeType :: "string \<Rightarrow> jsvalue" where
  "getMimeType filename =
     (let ext = getFileExtension filename; v = mimeTypes_get ext in
      if truthy v then v else String ''video/mp4'')"

text \<open>
  \<^verbatim>\<open>name.replace(/\.[^/.]+$/, '')\<close>: the first position where the pattern matches is a
  point followed, up to the end of the string, by one or more characters that are neither
  \<^verbatim>\<open>/\<close> nor a point; the match is removed. Without a match the string is unchanged.
\<close>

fun replace_extension :: "string \<Rightarrow> string" where
  "replace_extension [] = []"
| "replace_extension (c # cs) =
     (if c = CHR ''.'' \<and> cs \<noteq> [] \<and> list_all (\<lambda>x. x \<noteq> CHR ''/'' \<and> x \<noteq> CHR ''.'') cs then []
      else c # replace_extension cs)"

section \<open>The application state\<close>

type_synonym bytes = "nat list"

text \<open>An object URL (\<^verbatim>\<open>blob:\<dots>\<close>), identified by the order in which the browser issued it.\<close>

type_synonym object_url = nat

text \<open>
  The records of the source. A \<^verbatim>\<open>File\<close> is its name and its bytes. The field \<^verbatim>\<open>text\<close> of
  \<^verbatim>\<open>ProgressState\<close> is \<open>label\<close> here and the field \<^verbatim>\<open>file\<close> of \<^verbatim>\<open>VideoFile\<close> is
  \<open>vfile\<close>, both words being reserved; the field \<^verbatim>\<open>url\<close> of \<^verbatim>\<open>VideoFile\<close> is
  \<open>preview_url\<close>, to tell it from the \<^verbatim>\<open>url\<close> of \<^verbatim>\<open>ProcessedVideo\<close>. A \<^verbatim>\<open>Blob\<close> is its
  bytes and the value passed as its \<^verbatim>\<open>type\<close> option.
\<close>

record File =
  name :: string
  contents :: bytes

record ProgressState =
  visible :: bool
  percent :: number
  label :: string

record VideoFile =
  vfile :: File
  duration :: number
  preview_url :: object_url

record Blob =
  blob_data :: bytes
  blob_type :: jsvalue

record ProcessedVideo =
  blob :: Blob
  url :: object_url
  originalName :: string

text \<open>Values thrown or rejected with, and their rendering in a template literal.\<close>

datatype thrown = JSError string | EngineError string | ErrorEvent

fun template :: "thrown \<Rightarrow> string" where
  "template (JSError msg) = ''Error: '' @ msg"
| "template (EngineError str) = str"
| "template ErrorEvent = ''[object Event]''"

text \<open>
  The engine instance: its private file system and the calls made on it
  (\<^verbatim>\<open>writeFile\<close>, \<^verbatim>\<open>exec\<close>, \<^verbatim>\<open>readFile\<close>, \<^verbatim>\<open>deleteFile\<close>), in order.
\<close>

datatype engine_call =
  WriteFile string bytes | Exec "string list" | ReadFile string | DeleteFile string

record FFmpeg =
  files :: "string \<rightharpoonup> bytes"
  calls :: "engine_call list"

datatype url_event = CreateObjectURL object_url | RevokeObjectURL object_url

text \<open>
  The component state of \<^verbatim>\<open>App\<close> (the \<^verbatim>\<open>useState\<close> cells and the \<^verbatim>\<open>ffmpegRef\<close>),
  together with what the browser holds: the object URLs issued and revoked so far, the
  number of timers set and not yet come due, and every value \<^verbatim>\<open>setProgress\<close> has stored,
  in order.
\<close>

record app =
  currentVideo :: "VideoFile option"
  processedVideo :: "ProcessedVideo option"
  progress :: ProgressState
  error :: string
  info :: string
  isDragOver :: bool
  isProcessing :: bool
  ffmpegReady :: bool
  ffmpegRef :: "FFmpeg option"
  url_log :: "url_event list"
  next_url :: object_url
  progress_log :: "ProgressState list"
  timeouts :: nat

text \<open>
  The points at which a call of \<^verbatim>\<open>handleFile\<close> is suspended: the \<^verbatim>\<open>await\<close> of
  \<^verbatim>\<open>getVideoDuration\<close> and, inside \<^verbatim>\<open>trimVideo\<close>, those of \<^verbatim>\<open>fetchFile\<close>,
  \<^verbatim>\<open>writeFile\<close>, \<^verbatim>\<open>exec\<close>, \<^verbatim>\<open>readFile\<close> and the two \<^verbatim>\<open>deleteFile\<close>. While
  \<^verbatim>\<open>exec\<close> is awaited the engine reports its progress: \<open>AwaitExec k\<close> is the time after
  the first \<open>k\<close> reports have been handled and before the next one is, or before
  \<^verbatim>\<open>exec\<close> settles.
\<close>

datatype await_point =
  AwaitVideoDuration | AwaitFetchFile | AwaitWriteFile | AwaitExec nat | AwaitReadFile
  | AwaitDeleteInput | AwaitDeleteOutput

text \<open>
  What the browser and the engine do during one call of \<^verbatim>\<open>handleFile\<close>: whether the
  metadata of the video loads and with which duration, whether \<^verbatim>\<open>writeFile\<close> rejects, the
  progress fractions the engine reports during \<^verbatim>\<open>exec\<close>, whether \<^verbatim>\<open>exec\<close> rejects or
  returns (having written the output file or not), the value a failing file-system call
  rejects with, and how many of the timers set by earlier runs come due at each point where
  the call is suspended. No other call of \<^verbatim>\<open>handleFile\<close> is in flight meanwhile.
\<close>

datatype probe_result = LoadedMetadata number | VideoError

datatype exec_result = ExecRejects thrown | ExecReturns "bytes option"

record environment =
  probe :: probe_result
  writeFile_rejects :: "thrown option"
  exec_progress :: "number list"
  exec_outcome :: exec_result
  fs_error :: thrown
  timers_due :: "await_point \<Rightarrow> nat"

datatype load_result = Loaded | LoadFailed string

text \<open>The way a call of \<^verbatim>\<open>handleFile\<close> ends, named after the statement that ends it.\<close>

datatype exit_path =
  NotReadyReturn | HandleFileCatch thrown | TrimVideoCatch thrown | TrimVideoCompleted

section \<open>The operations of the component\<close>

definition initial_app :: app where
  "initial_app =
     \<lparr>currentVideo = None, processedVideo = None,
      progress = \<lparr>visible = False, percent = Finite 0, label = ''''\<rparr>,
      error = '''', info = '''', isDragOver = False, isProcessing = False, ffmpegReady = False,
      ffmpegRef = None, url_log = [], next_url = 0, progress_log = [], timeouts = 0\<rparr>"

definition setProgress :: "ProgressState \<Rightarrow> app \<Rightarrow> app" where
  "setProgress p s = s\<lparr>progress := p, progress_log := progress_log s @ [p]\<rparr>"

definition createObjectURL :: "app \<Rightarrow> object_url \<times> app" where
  "createObjectURL s =
     (next_url s,
      s\<lparr>url_log := url_log s @ [CreateObjectURL (next_url s)], next_url := Suc (next_url s)\<rparr>)"

definition revokeObjectURL :: "object_url \<Rightarrow> app \<Rightarrow> app" where
  "revokeObjectURL u s = s\<lparr>url_log := url_log s @ [RevokeObjectURL u]\<rparr>"

text \<open>
  The effect \<^verbatim>\<open>initializeFFmpeg\<close>: the state while the engine loads, and the state once
  \<^verbatim>\<open>ffmpeg.load\<close> has settled.
\<close>

definition initializeFFmpeg_start :: "app \<Rightarrow> app" where
  "initializeFFmpeg_start s =
     setProgress \<lparr>visible = True, percent = Finite 0, label = ''Loading FFmpeg...''\<rparr> s"

definition initializeFFmpeg_settled :: "load_result \<Rightarrow> app \<Rightarrow> app" where
  "initializeFFmpeg_settled r s =
     (case r of
        Loaded \<Rightarrow>
          (let s1 = s\<lparr>ffmpegRef := Some \<lparr>files = Map.empty, calls = []\<rparr>\<rparr>;
               s2 = s1\<lparr>ffmpegReady := True\<rparr>;
               s3 = setProgress \<lparr>visible = False, percent = Finite 0, label = ''''\<rparr> s2
           in s3\<lparr>info := ''FFmpeg loaded successfully! You can now upload a video.''\<rparr>)
      | LoadFailed msg \<Rightarrow>
          (let s1 = setProgress \<lparr>visible = False, percent = Finite 0, label = ''''\<rparr> s
           in s1\<lparr>error := ''Failed to load FFmpeg: '' @ msg
                  @ ''. Please refresh the page and try again.''\<rparr>))"

text \<open>The handler registered with \<^verbatim>\<open>ffmpeg.on('progress', \<dots>)\<close>.\<close>

definition on_progress :: "number \<Rightarrow> app \<Rightarrow> app" where
  "on_progress p s =
     (let progressPercent = Math_round (Number_multiply p (Finite 100));
          prev = progress s
      in setProgress
           (prev\<lparr>percent := Number_add (Finite 30)
                     (Number_multiply progressPercent (Number_value (6 / 10))),
                 label := ''Processing video... '' @ Number_toString progressPercent @ ''%''\<rparr>) s)"

definition clearMessages :: "app \<Rightarrow> app" where
  "clearMessages s = s\<lparr>error := '''', info := ''''\<rparr>"

text \<open>
  \<^verbatim>\<open>setTimeout(() => setProgress({visible: false, percent: 0, text: ''}), 1000)\<close>: the
  timer is set, and nothing in the code clears it. When a timer comes due its callback
  resets the progress display, whatever the component is doing then.
\<close>

definition setTimeout :: "app \<Rightarrow> app" where
  "setTimeout s = s\<lparr>timeouts := Suc (timeouts s)\<rparr>"

definition timeout_fires :: "app \<Rightarrow> app" where
  "timeout_fires s =
     (if timeouts s = 0 then s
      else setProgress \<lparr>visible = False, percent = Finite 0, label = ''''\<rparr>
             (s\<lparr>timeouts := timeouts s - 1\<rparr>))"

text \<open>
  The call is suspended at an \<^verbatim>\<open>await\<close>: the timers that come due there run their
  callbacks, one after the other, before the call goes on.
\<close>

definition await_at :: "environment \<Rightarrow> await_point \<Rightarrow> app \<Rightarrow> app" where
  "await_at env p s = (timeout_fires ^^ timers_due env p) s"

text \<open>
  \<^verbatim>\<open>getVideoDuration\<close>, awaited by \<^verbatim>\<open>handleFile\<close>: the object URL of the probe is
  issued; then the promise resolves with \<^verbatim>\<open>video.duration\<close> and the object URL is revoked,
  or it rejects with the error event.
\<close>

definition getVideoDuration :: "environment \<Rightarrow> File \<Rightarrow> app \<Rightarrow> (thrown + number) \<times> app" where
  "getVideoDuration env f s =
     (case createObjectURL s of
        (src, s1) \<Rightarrow>
          (let s2 = await_at env AwaitVideoDuration s1
           in case probe env of
                LoadedMetadata d \<Rightarrow> (Inr d, revokeObjectURL src s2)
              | VideoError \<Rightarrow> (Inl ErrorEvent, s2)))"

text \<open>
  While \<^verbatim>\<open>exec\<close> is awaited, the engine reports its fractions to the handler one by one;
  before each report, and after the last, the timers that come due then run their callbacks.
\<close>

fun deliver_progress :: "environment \<Rightarrow> nat \<Rightarrow> number list \<Rightarrow> app \<Rightarrow> app" where
  "deliver_progress env k [] s = await_at env (AwaitExec k) s"
| "deliver_progress env k (p # ps) s =
     deliver_progress env (Suc k) ps (on_progress p (await_at env (AwaitExec k) s))"

text \<open>
  The engine calls. Each is recorded; a failing one returns the value it rejects with.
  \<^verbatim>\<open>exec\<close> reports its progress to the handler, then rejects, or returns after writing
  the output file named by its last argument (or without writing it).
\<close>

definition writeFile :: "environment \<Rightarrow> string \<Rightarrow> bytes \<Rightarrow> app \<Rightarrow> thrown option \<times> app" where
  "writeFile env path data s =
     (case ffmpegRef s of
        None \<Rightarrow> (Some (fs_error env), s)
      | Some ffmpeg \<Rightarrow>
          (case writeFile_rejects env of
             Some e \<Rightarrow>
               (Some e,
                s\<lparr>ffmpegRef := Some (ffmpeg\<lparr>calls := calls ffmpeg @ [WriteFile path data]\<rparr>)\<rparr>)
           | None \<Rightarrow>
               (None,
                s\<lparr>ffmpegRef := Some (ffmpeg\<lparr>files := (files ffmpeg)(path \<mapsto> data),
                     calls := calls ffmpeg @ [WriteFile path data]\<rparr>)\<rparr>)))"

definition exec :: "environment \<Rightarrow> string list \<Rightarrow> app \<Rightarrow> thrown option \<times> app" where
  "exec env args s =
     (case ffmpegRef s of
        None \<Rightarrow> (Some (fs_error env), s)
      | Some ffmpeg \<Rightarrow>
          (let s1 = s\<lparr>ffmpegRef := Some (ffmpeg\<lparr>calls := calls ffmpeg @ [Exec args]\<rparr>)\<rparr>;
               s2 = deliver_progress env 0 (exec_progress env) s1
           in case exec_outcome env of
                ExecRejects e \<Rightarrow> (Some e, s2)
              | ExecReturns None \<Rightarrow> (None, s2)
              | ExecReturns (Some out) \<Rightarrow>
                  (None,
                   s2\<lparr>ffmpegRef := map_option
                      (\<lambda>ffmpeg. ffmpeg\<lparr>files := (files ffmpeg)(last args \<mapsto> out)\<rparr>)
                      (ffmpegRef s2)\<rparr>)))"

definition readFile :: "environment \<Rightarrow> string \<Rightarrow> app \<Rightarrow> (thrown + bytes) \<times> app" where
  "readFile env path s =
     (case ffmpegRef s of
        None \<Rightarrow> (Inl (fs_error env), s)
      | Some ffmpeg \<Rightarrow>
          (let s1 = s\<lparr>ffmpegRef := Some (ffmpeg\<lparr>calls := calls ffmpeg @ [ReadFile path]\<rparr>)\<rparr>
           in case files ffmpeg path of
                None \<Rightarrow> (Inl (fs_error env), s1)
              | Some data \<Rightarrow> (Inr data, s1)))"

definition deleteFile :: "environment \<Rightarrow> string \<Rightarrow> app \<Rightarrow> thrown option \<times> app" where
  "deleteFile env path s =
     (case ffmpegRef s of
        None \<Rightarrow> (Some (fs_error env), s)
      | Some ffmpeg \<Rightarrow>
          (case files ffmpeg path of
             None \<Rightarrow>
               (Some (fs_error env),
                s\<lparr>ffmpegRef := Some (ffmpeg\<lparr>calls := calls ffmpeg @ [DeleteFile path]\<rparr>)\<rparr>)
           | Some data \<Rightarrow>
               (None,
                s\<lparr>ffmpegRef := Some (ffmpeg\<lparr>files := (files ffmpeg)(path := None),
                     calls := calls ffmpeg @ [DeleteFile path]\<rparr>)\<rparr>)))"

text \<open>
  The \<^verbatim>\<open>try\<close> block of \<^verbatim>\<open>trimVideo\<close>: the value thrown, if any, and the state reached.
  A callback that runs while \<^verbatim>\<open>writeFile\<close>, \<^verbatim>\<open>readFile\<close> or \<^verbatim>\<open>deleteFile\<close> is
  awaited touches the progress display only, and these calls touch the engine only: the
  callbacks are applied to the state in which the call is made.
  \<^verbatim>\<open>fetchFile(file)\<close> yields the bytes of the file. The calls of \<^verbatim>\<open>console.log\<close> change
  nothing in the state and are left out, except for the object URL that the argument of
  \<^verbatim>\<open>console.log(URL.createObjectURL(blob))\<close> issues.
\<close>

definition trimVideo_try :: "environment \<Rightarrow> VideoFile \<Rightarrow> app \<Rightarrow> thrown option \<times> app" where
  "trimVideo_try env videoFile s0 =
     (let s1 = setProgress
                 \<lparr>visible = True, percent = Finite 10, label = ''Loading video file...''\<rparr> s0;
          f = vfile videoFile;
          d = duration videoFile
      in case ffmpegRef s1 of
           None \<Rightarrow> (Some (JSError ''FFmpeg is not initialized''), s1)
         | Some ffmpeg \<Rightarrow>
      (let s2 = setProgress
                  \<lparr>visible = True, percent = Finite 20, label = ''Preparing FFmpeg...''\<rparr> s1;
           inputFileName = ''input.'' @ getFileExtension (name f);
           outputFileName = ''output.'' @ getFileExtension (name f)
       in case writeFile env inputFileName (contents f)
                 (await_at env AwaitWriteFile (await_at env AwaitFetchFile s2)) of
            (Some e, s3) \<Rightarrow> (Some e, s3)
          | (None, s3) \<Rightarrow>
      (let s4 = setProgress
                  \<lparr>visible = True, percent = Finite 30, label = ''Trimming video...''\<rparr> s3;
           endTime = Number_subtract d (Finite 3)
       in case exec env
                 [''-i'', inputFileName,
                  ''-t'', Number_toString endTime,
                  ''-c'', ''copy'',
                  ''-avoid_negative_ts'', ''make_zero'',
                  outputFileName] s4 of
            (Some e, s5) \<Rightarrow> (Some e, s5)
          | (None, s5) \<Rightarrow>
      (let s6 = setProgress
                  \<lparr>visible = True, percent = Finite 90, label = ''Finalizing...''\<rparr> s5
       in case readFile env outputFileName (await_at env AwaitReadFile s6) of
            (Inl e, s7) \<Rightarrow> (Some e, s7)
          | (Inr data, s7) \<Rightarrow>
      (let mimeType = getMimeType (name f);
           b = \<lparr>blob_data = data, blob_type = mimeType\<rparr>
       in case deleteFile env inputFileName (await_at env AwaitDeleteInput s7) of
            (Some e, s8) \<Rightarrow> (Some e, s8)
          | (None, s8) \<Rightarrow>
      (case deleteFile env outputFileName (await_at env AwaitDeleteOutput s8) of
            (Some e, s9) \<Rightarrow> (Some e, s9)
          | (None, s9) \<Rightarrow>
      (case createObjectURL s9 of
            (u, s10) \<Rightarrow>
      (let s11 = s10\<lparr>processedVideo := Some \<lparr>blob = b, url = u, originalName = name f\<rparr>\<rparr>
       in case createObjectURL s11 of
            (logged, s12) \<Rightarrow>
      (let s13 = setProgress
                   \<lparr>visible = True, percent = Finite 100, label = ''Complete!''\<rparr> s12
       in (None, setTimeout s13))))))))))"

text \<open>\<^verbatim>\<open>trimVideo\<close>: the \<^verbatim>\<open>try\<close> block, the \<^verbatim>\<open>catch\<close> clause and the \<^verbatim>\<open>finally\<close> clause.\<close>

definition trimVideo :: "environment \<Rightarrow> VideoFile \<Rightarrow> app \<Rightarrow> exit_path \<times> app" where
  "trimVideo env videoFile s =
     (case trimVideo_try env videoFile s of
        (None, s') \<Rightarrow> (TrimVideoCompleted, s'\<lparr>isProcessing := False\<rparr>)
      | (Some e, s') \<Rightarrow>
          (TrimVideoCatch e,
           s'\<lparr>error := ''Error processing video: '' @ template e, isProcessing := False\<rparr>))"

definition handleFile :: "environment \<Rightarrow> File \<Rightarrow> app \<Rightarrow> exit_path \<times> app" where
  "handleFile env f s =
     (if \<not> ffmpegReady s then
        (NotReadyReturn,
         s\<lparr>error := ''FFmpeg is not loaded yet. Please wait for initialization to complete.''\<rparr>)
      else
        (let s1 = clearMessages s;
             s2 = s1\<lparr>processedVideo := None\<rparr>;
             s3 = s2\<lparr>isProcessing := True\<rparr>
         in case getVideoDuration env f s3 of
              (Inl e, s4) \<Rightarrow>
                (HandleFileCatch e,
                 s4\<lparr>error := ''Error processing video: '' @ template e, isProcessing := False\<rparr>)
            | (Inr d, s4) \<Rightarrow>
                if Number_le d (Finite 3) then
                  (let e = JSError
                         ''Video is too short (3 seconds or less). Cannot trim 3 seconds.''
                   in (HandleFileCatch e,
                       s4\<lparr>error := ''Error processing video: '' @ template e,
                           isProcessing := False\<rparr>))
                else
                  (case createObjectURL s4 of
                     (u, s5) \<Rightarrow>
                       (let videoFile = \<lparr>vfile = f, duration = d, preview_url = u\<rparr>;
                            s6 = s5\<lparr>currentVideo := Some videoFile\<rparr>
                        in trimVideo env videoFile s6))))"

text \<open>
  \<^verbatim>\<open>downloadTrimmedVideo\<close>: the anchor element that is clicked, if a result exists. The
  state is not changed.
\<close>

record anchor =
  href :: object_url
  download :: string

definition downloadTrimmedVideo :: "app \<Rightarrow> anchor option" where
  "downloadTrimmedVideo s =
     (case processedVideo s of
        None \<Rightarrow> None
      | Some pv \<Rightarrow>
          (let originalExt = getFileExtension (originalName pv);
               baseName = replace_extension (originalName pv)
           in Some \<lparr>href = url pv, download = baseName @ ''_trimmed.'' @ originalExt\<rparr>))"

section \<open>Notions used in the statements\<close>

text \<open>The composite percentage the progress handler stores for an engine-reported fraction.\<close>

definition composite_percent :: "number \<Rightarrow> number" where
  "composite_percent p =
     Number_add (Finite 30)
       (Number_multiply (Math_round (Number_multiply p (Finite 100))) (Number_value (6 / 10)))"

text \<open>
  The binary64 value of the literal \<^verbatim>\<open>0.6\<close>, and the mathematical value of the composite
  percentage for a finite fraction \<open>x\<close>.
\<close>

definition six_tenths :: rat where
  "six_tenths = 5404319552844595 / 9007199254740992"

definition composite_value :: "rat \<Rightarrow> rat" where
  "composite_value x =
     round_binary64 (30 + round_binary64 (of_int \<lfloor>round_binary64 (x * 100) + 1 / 2\<rfloor> * six_tenths))"

text \<open>A fraction in the interval from 0 to 1.\<close>

fun unit_fraction :: "number \<Rightarrow> bool" where
  "unit_fraction (Finite x) = (0 \<le> x \<and> x \<le> 1)"
| "unit_fraction p = False"

text \<open>The engine workspace and the calls made on the engine so far.\<close>

definition workspace :: "app \<Rightarrow> string \<rightharpoonup> bytes" where
  "workspace s = (case ffmpegRef s of None \<Rightarrow> Map.empty | Some ffmpeg \<Rightarrow> files ffmpeg)"

definition engine_calls :: "app \<Rightarrow> engine_call list" where
  "engine_calls s = (case ffmpegRef s of None \<Rightarrow> [] | Some ffmpeg \<Rightarrow> calls ffmpeg)"

fun exec_arguments :: "engine_call list \<Rightarrow> string list list" where
  "exec_arguments [] = []"
| "exec_arguments (Exec args # cs) = args # exec_arguments cs"
| "exec_arguments (c # cs) = exec_arguments cs"

text \<open>
  The values the progress percentage takes between two states, in order: every value stored
  by \<^verbatim>\<open>setProgress\<close>, whether by the run, by the progress handler or by the callback of a
  timer.
\<close>

definition run_percents :: "app \<Rightarrow> app \<Rightarrow> number list" where
  "run_percents s s' = drop (length (progress_log s)) (map percent (progress_log s'))"

text \<open>How often an object URL has been revoked, and whether it is still usable.\<close>

definition revocations :: "app \<Rightarrow> object_url \<Rightarrow> nat" where
  "revocations s u = length (filter (\<lambda>e. e = RevokeObjectURL u) (url_log s))"

definition live :: "app \<Rightarrow> object_url \<Rightarrow> bool" where
  "live s u = (CreateObjectURL u \<in> set (url_log s) \<and> revocations s u = 0)"

text \<open>Every object URL the log mentions was issued earlier than the next one will be.\<close>

fun url_of :: "url_event \<Rightarrow> object_url" where
  "url_of (CreateObjectURL u) = u"
| "url_of (RevokeObjectURL u) = u"

definition urls_issued :: "app \<Rightarrow> bool" where
  "urls_issued s = list_all (\<lambda>e. url_of e < next_url s) (url_log s)"

text \<open>
  The fields of the state that belong neither to the engine nor to the progress display and
  its timers.
\<close>

definition same_outside_engine :: "app \<Rightarrow> app \<Rightarrow> bool" where
  "same_outside_engine s s' =
     (currentVideo s' = currentVideo s \<and> processedVideo s' = processedVideo s \<and>
      error s' = error s \<and> info s' = info s \<and> isDragOver s' = isDragOver s \<and>
      isProcessing s' = isProcessing s \<and> ffmpegReady s' = ffmpegReady s \<and>
      url_log s' = url_log s \<and> next_url s' = next_url s)"

text \<open>
  The video record \<^verbatim>\<open>handleFile\<close> builds for a file it accepts, the state in which it
  then calls \<^verbatim>\<open>trimVideo\<close>, and the argument list \<^verbatim>\<open>trimVideo\<close> passes to the engine.
\<close>

definition accepted_video :: "File \<Rightarrow> number \<Rightarrow> app \<Rightarrow> VideoFile" where
  "accepted_video f d s = \<lparr>vfile = f, duration = d, preview_url = Suc (next_url s)\<rparr>"

definition accepted_state :: "environment \<Rightarrow> File \<Rightarrow> number \<Rightarrow> app \<Rightarrow> app" where
  "accepted_state env f d s =
     (await_at env AwaitVideoDuration s)
      \<lparr>error := [], info := [], processedVideo := None, isProcessing := True,
       url_log := url_log s @ [CreateObjectURL (next_url s), RevokeObjectURL (next_url s),
         CreateObjectURL (Suc (next_url s))],
       next_url := Suc (Suc (next_url s)),
       currentVideo := Some (accepted_video f d s)\<rparr>"

text \<open>The state in which the callback of a timer leaves the progress display.\<close>

definition progress_reset :: ProgressState where
  "progress_reset = \<lparr>visible = False, percent = Finite 0, label = ''''\<rparr>"

definition trim_arguments :: "File \<Rightarrow> number \<Rightarrow> string list" where
  "trim_arguments f d =
     [''-i'', ''input.'' @ getFileExtension (name f),
      ''-t'', Number_toString (Number_subtract d (Finite 3)),
      ''-c'', ''copy'',
      ''-avoid_negative_ts'', ''make_zero'',
      ''output.'' @ getFileExtension (name f)]"

section \<open>Example scenarios\<close>

definition loading_app :: app where
  "loading_app = initializeFFmpeg_start initial_app"

definition ready_app :: app where
  "ready_app = initializeFFmpeg_settled Loaded loading_app"

definition failed_app :: app where
  "failed_app = initializeFFmpeg_settled (LoadFailed ''TypeError: Failed to fetch'') loading_app"

definition clip_mp4 :: File where
  "clip_mp4 = \<lparr>name = ''clip.mp4'', contents = [0, 0, 0, 24]\<rparr>"

definition a_mov :: File where
  "a_mov = \<lparr>name = ''a.mov'', contents = [0, 0, 0, 20]\<rparr>"

definition b_webm :: File where
  "b_webm = \<lparr>name = ''b.webm'', contents = [26, 69, 223, 163]\<rparr>"

text \<open>
  An engine that reports the given fractions and writes an output file, for a video whose
  metadata loads with the given duration; and one whose invocation rejects. No timer comes
  due during these runs.
\<close>

definition engine_succeeds :: "number \<Rightarrow> number list \<Rightarrow> environment" where
  "engine_succeeds d ps =
     \<lparr>probe = LoadedMetadata d, writeFile_rejects = None, exec_progress = ps,
      exec_outcome = ExecReturns (Some [1, 2, 3]), fs_error = EngineError ''ErrnoError: FS error'',
      timers_due = (\<lambda>p. 0)\<rparr>"

definition engine_fails :: "number \<Rightarrow> environment" where
  "engine_fails d =
     \<lparr>probe = LoadedMetadata d, writeFile_rejects = None, exec_progress = [],
      exec_outcome = ExecRejects (EngineError ''RuntimeError: memory access out of bounds''),
      fs_error = EngineError ''ErrnoError: FS error'',
      timers_due = (\<lambda>p. 0)\<rparr>"

definition probe_fails :: environment where
  "probe_fails =
     \<lparr>probe = VideoError, writeFile_rejects = None, exec_progress = [],
      exec_outcome = ExecReturns (Some [1, 2, 3]), fs_error = EngineError ''ErrnoError: FS error'',
      timers_due = (\<lambda>p. 0)\<rparr>"

text \<open>
  A run during which the engine reports no progress at all and one timer comes due while
  \<^verbatim>\<open>exec\<close> is awaited.
\<close>

definition timer_due_during_exec :: "number \<Rightarrow> environment" where
  "timer_due_during_exec d =
     (engine_succeeds d [])\<lparr>timers_due := (\<lambda>p. if p = AwaitExec 0 then 1 else 0)\<rparr>"

text \<open>Files whose names have an upper-case extension, no extension, an inherited key as extension.\<close>

definition Clip_MP4 :: File where
  "Clip_MP4 = \<lparr>name = ''Clip.MP4'', contents = [0, 0, 0, 24]\<rparr>"

definition video_without_extension :: File where
  "video_without_extension = \<lparr>name = ''video'', contents = [0, 0, 0, 24]\<rparr>"

definition clip_constructor :: File where
  "clip_constructor = \<lparr>name = ''clip.constructor'', contents = [0, 0, 0, 24]\<rparr>"

section \<open>Rounding to binary64\<close>

lemma pow2_less_cancel:
  assumes "(2::rat) powi a < 2 powi b"
  shows "a < b"
proof (rule ccontr)
  assume "\<not> a < b"
  then have "b \<le> a" by simp
  then have "(2::rat) powi b \<le> 2 powi a" by (intro power_int_increasing) simp_all
  with assms show False by simp
qed

lemma floorlog2_bounds:
  assumes "0 < q"
  shows "2 powi floorlog2 q \<le> q" and "q < 2 powi (floorlog2 q + 1)"
proof -
  have "2 powi floorlog2 q \<le> q \<and> q < 2 powi (floorlog2 q + 1)"
  proof (cases "1 \<le> q")
    case True
    define n where "n = \<lfloor>q\<rfloor>"
    have n: "0 < n" using True by (simp add: n_def)
    have L: "floorlog2 q = bitlen n - 1" using True by (simp add: floorlog2_def n_def)
    have b1: "1 \<le> bitlen n" using n bitlen_eq_zero_iff [of n] bitlen_nonneg [of n] by linarith
    from bitlen_bounds [OF n] have lo: "2 ^ nat (bitlen n - 1) \<le> n" and hi: "n < 2 ^ nat (bitlen n)"
      by simp_all
    have "(2::rat) powi (bitlen n - 1) = of_int (2 ^ nat (bitlen n - 1))"
      using b1 by (simp add: power_int_nonneg_exp)
    also have "\<dots> \<le> of_int n" using lo by (simp only: of_int_le_iff)
    also have "\<dots> \<le> q" by (simp add: n_def)
    finally have A: "2 powi floorlog2 q \<le> q" by (simp add: L)
    have "n + 1 \<le> 2 ^ nat (bitlen n)" using hi by simp
    then have "(of_int (n + 1) :: rat) \<le> of_int (2 ^ nat (bitlen n))" by (simp only: of_int_le_iff)
    moreover have "q < of_int (n + 1)" unfolding n_def by linarith
    moreover have "(2::rat) powi (bitlen n - 1 + 1) = of_int (2 ^ nat (bitlen n))"
      using b1 by (simp add: power_int_nonneg_exp)
    ultimately have "q < 2 powi (floorlog2 q + 1)" by (simp add: L)
    with A show ?thesis by simp
  next
    case False
    define m where "m = \<lceil>1 / q\<rceil> - 1"
    have r: "1 < 1 / q" using False assms by simp
    then have "2 \<le> \<lceil>1 / q\<rceil>" by (simp add: le_ceiling_iff) 
    then have m: "0 < m" by (simp add: m_def)
    have L: "floorlog2 q = - bitlen m" using False by (simp add: floorlog2_def m_def)
    have b1: "1 \<le> bitlen m" using m bitlen_eq_zero_iff [of m] bitlen_nonneg [of m] by linarith
    from bitlen_bounds [OF m] have lo: "2 ^ nat (bitlen m - 1) \<le> m" and hi: "m < 2 ^ nat (bitlen m)"
      by simp_all
    have "1 / q \<le> of_int (m + 1)" by (simp add: m_def)
    also have "(of_int (m + 1) :: rat) \<le> of_int (2 ^ nat (bitlen m))"
      using hi by (simp only: of_int_le_iff)
    also have "(of_int (2 ^ nat (bitlen m)) :: rat) = 2 powi bitlen m"
      using b1 by (simp add: power_int_nonneg_exp)
    finally have "1 / q \<le> 2 powi bitlen m" .
    then have "1 \<le> 2 powi bitlen m * q" using assms by (simp add: pos_divide_le_eq)
    then have A: "2 powi floorlog2 q \<le> q"
      by (simp add: L power_int_minus field_simps)
    have "(2::rat) powi (bitlen m - 1) = of_int (2 ^ nat (bitlen m - 1))"
      using b1 by (simp add: power_int_nonneg_exp)
    also have "\<dots> \<le> of_int m" using lo by (simp only: of_int_le_iff)
    also have "\<dots> < 1 / q" unfolding m_def by linarith
    finally have "2 powi (bitlen m - 1) < 1 / q" .
    then have "q < 1 / 2 powi (bitlen m - 1)" using assms by (simp add: field_simps)
    also have "1 / 2 powi (bitlen m - 1) = (2::rat) powi (- (bitlen m - 1))"
      by (simp only: power_int_minus_divide)
    also have "- (bitlen m - 1) = floorlog2 q + 1" by (simp add: L)
    finally have "q < 2 powi (floorlog2 q + 1)" .
    with A show ?thesis by simp
  qed
  then show "2 powi floorlog2 q \<le> q" and "q < 2 powi (floorlog2 q + 1)" by simp_all
qed

lemma floorlog2_eqI:
  assumes "2 powi L \<le> q" and "q < 2 powi (L + 1)"
  shows "floorlog2 q = L"
proof -
  have "(0::rat) < 2 powi L" by simp
  with assms(1) have q: "0 < q" by linarith
  note b = floorlog2_bounds [OF q]
  have "(2::rat) powi L < 2 powi (floorlog2 q + 1)" using assms(1) b(2) by simp
  then have 1: "L < floorlog2 q + 1" by (rule pow2_less_cancel)
  have "(2::rat) powi floorlog2 q < 2 powi (L + 1)" using assms(2) b(1) by simp
  then have 2: "floorlog2 q < L + 1" by (rule pow2_less_cancel)
  from 1 2 show ?thesis by simp
qed

lemma floorlog2_mono:
  assumes "0 < x" and "x \<le> y"
  shows "floorlog2 x \<le> floorlog2 y"
proof -
  have y: "0 < y" using assms by simp
  have "(2::rat) powi floorlog2 x \<le> x" using floorlog2_bounds(1) [OF assms(1)] .
  also have "x \<le> y" by fact
  also have "y < 2 powi (floorlog2 y + 1)" using floorlog2_bounds(2) [OF y] .
  finally have "floorlog2 x < floorlog2 y + 1" by (rule pow2_less_cancel)
  then show ?thesis by simp
qed

lemma round_ties_even_of_int: "round_ties_even (of_int n) = n"
  by (simp add: round_ties_even_def)

lemma round_ties_even_near:
  "of_int (round_ties_even x) \<le> x + 1 / 2" "x - 1 / 2 \<le> of_int (round_ties_even x)"
  unfolding round_ties_even_def Let_def by (auto; linarith)+

lemma round_ties_even_mono:
  assumes "x \<le> y"
  shows "round_ties_even x \<le> round_ties_even y"
proof (cases "\<lfloor>x\<rfloor> = \<lfloor>y\<rfloor>")
  case True
  with assms show ?thesis
    unfolding round_ties_even_def Let_def by auto
next
  case False
  have "\<lfloor>x\<rfloor> \<le> \<lfloor>y\<rfloor>" using assms by (rule floor_mono)
  with False have "\<lfloor>x\<rfloor> + 1 \<le> \<lfloor>y\<rfloor>" by simp
  moreover have "round_ties_even x \<le> \<lfloor>x\<rfloor> + 1"
    unfolding round_ties_even_def Let_def by auto
  moreover have "\<lfloor>y\<rfloor> \<le> round_ties_even y"
    unfolding round_ties_even_def Let_def by auto
  ultimately show ?thesis by linarith
qed

lemma round_ties_even_eqI:
  assumes "of_int m - 1 / 2 < x" and "x < of_int m + 1 / 2"
  shows "round_ties_even x = m"
proof (cases "of_int m \<le> x")
  case True
  then have "\<lfloor>x\<rfloor> = m" using assms(2) by (intro floor_unique) simp_all
  then show ?thesis using assms(2) by (simp add: round_ties_even_def Let_def)
next
  case False
  then have "\<lfloor>x\<rfloor> = m - 1" using assms(1) by (intro floor_unique) simp_all
  then show ?thesis using assms(1) by (simp add: round_ties_even_def Let_def)
qed

lemma ulp_exponent_eqI:
  assumes "- 1074 \<le> e" and "2 powi (e + 52) \<le> \<bar>q\<bar>" and "\<bar>q\<bar> < 2 powi (e + 53)"
  shows "ulp_exponent q = e"
proof -
  have "floorlog2 \<bar>q\<bar> = e + 52" using assms(2,3) by (intro floorlog2_eqI) (simp_all add: add.commute)
  then show ?thesis using assms(1) by (simp add: ulp_exponent_def)
qed

lemma round_binary64_eqI:
  assumes "- 1074 \<le> e" and "2 powi (e + 52) \<le> \<bar>q\<bar>" and "\<bar>q\<bar> < 2 powi (e + 53)"
    and "of_int m - 1 / 2 < q / 2 powi e" and "q / 2 powi e < of_int m + 1 / 2"
  shows "round_binary64 q = of_int m * 2 powi e"
proof -
  have "(0::rat) < 2 powi (e + 52)" by simp
  then have "0 < \<bar>q\<bar>" using assms(2) by (rule less_le_trans)
  then have "q \<noteq> 0" by simp
  moreover have "ulp_exponent q = e" using assms(1-3) by (rule ulp_exponent_eqI)
  moreover have "round_ties_even (q / 2 powi e) = m" using assms(4,5) by (rule round_ties_even_eqI)
  ultimately show ?thesis by (simp add: round_binary64_def)
qed

lemma round_binary64_nonneg:
  assumes "0 \<le> q"
  shows "0 \<le> round_binary64 q"
proof -
  have "0 \<le> q / 2 powi ulp_exponent q" using assms by simp
  then have "round_ties_even (of_int 0) \<le> round_ties_even (q / 2 powi ulp_exponent q)"
    by (intro round_ties_even_mono) simp
  then have "0 \<le> round_ties_even (q / 2 powi ulp_exponent q)" by (simp only: round_ties_even_of_int)
  then show ?thesis by (simp add: round_binary64_def Let_def)
qed

lemma ulp_exponent_upper:
  assumes "0 < q"
  shows "q < 2 powi (ulp_exponent q + 53)"
proof -
  have "q < 2 powi (floorlog2 q + 1)" using assms by (rule floorlog2_bounds)
  also have "(2::rat) powi (floorlog2 q + 1) \<le> 2 powi (ulp_exponent q + 53)"
    using assms by (intro power_int_increasing) (simp_all add: ulp_exponent_def)
  finally show ?thesis .
qed

lemma ulp_exponent_lower:
  assumes "0 < q" and "e < ulp_exponent q" and "- 1074 \<le> e"
  shows "2 powi (e + 53) \<le> q"
proof -
  have "e + 53 \<le> floorlog2 q"
    using assms by (simp add: ulp_exponent_def max_def split: if_splits)
  then have "(2::rat) powi (e + 53) \<le> 2 powi floorlog2 q"
    by (intro power_int_increasing) simp_all
  also have "\<dots> \<le> q" using assms(1) by (rule floorlog2_bounds)
  finally show ?thesis .
qed

lemma round_binary64_mono:
  assumes "0 \<le> x" and "x \<le> y"
  shows "round_binary64 x \<le> round_binary64 y"
proof (cases "x = 0")
  case True
  then show ?thesis using round_binary64_nonneg [of y] assms by (simp add: round_binary64_def)
next
  case False
  then have x: "0 < x" and y: "0 < y" using assms by simp_all
  define ex where "ex = ulp_exponent x"
  define ey where "ey = ulp_exponent y"
  have rx: "round_binary64 x = of_int (round_ties_even (x / 2 powi ex)) * 2 powi ex"
    using x by (simp add: round_binary64_def ex_def Let_def)
  have ry: "round_binary64 y = of_int (round_ties_even (y / 2 powi ey)) * 2 powi ey"
    using y by (simp add: round_binary64_def ey_def Let_def)
  have le: "ex \<le> ey"
    using floorlog2_mono [OF x assms(2)] x y by (simp add: ex_def ey_def ulp_exponent_def)
  show ?thesis
  proof (cases "ex = ey")
    case True
    have "x / 2 powi ey \<le> y / 2 powi ey" using assms(2) by (simp add: divide_right_mono)
    then have "round_ties_even (x / 2 powi ey) \<le> round_ties_even (y / 2 powi ey)"
      by (rule round_ties_even_mono)
    then have "(of_int (round_ties_even (x / 2 powi ey)) :: rat) \<le> of_int (round_ties_even (y / 2 powi ey))"
      by (simp only: of_int_le_iff)
    then show ?thesis unfolding rx ry True by (intro mult_right_mono) simp_all
  next
    case False
    with le have lt: "ex < ey" by simp
    have "x < 2 powi (ex + 53)" unfolding ex_def using x by (rule ulp_exponent_upper)
    then have "x / 2 powi ex < 2 powi (ex + 53) / 2 powi ex" by (intro divide_strict_right_mono) simp_all
    also have "(2::rat) powi (ex + 53) / 2 powi ex = of_int (2 ^ 53)" by (simp add: power_int_add)
    finally have "round_ties_even (x / 2 powi ex) \<le> round_ties_even (of_int (2 ^ 53))"
      by (intro round_ties_even_mono) simp
    then have "(of_int (round_ties_even (x / 2 powi ex)) :: rat) \<le> of_int (2 ^ 53)"
      by (simp only: round_ties_even_of_int of_int_le_iff)
    then have "round_binary64 x \<le> of_int (2 ^ 53) * 2 powi ex"
      unfolding rx by (intro mult_right_mono) simp_all
    also have "\<dots> = 2 powi (ex + 53)" by (simp add: power_int_add)
    also have "\<dots> \<le> 2 powi (ey + 52)" using lt by (intro power_int_increasing) simp_all
    finally have A: "round_binary64 x \<le> 2 powi (ey + 52)" .
    have "- 1074 \<le> ex" by (simp add: ex_def ulp_exponent_def)
    with lt have "- 1074 \<le> ey - 1" by simp
    with y have "2 powi (ey - 1 + 53) \<le> y" unfolding ey_def by (intro ulp_exponent_lower) simp_all
    then have "2 powi (ey + 52) \<le> y" by (simp add: algebra_simps)
    then have "2 powi (ey + 52) / 2 powi ey \<le> y / 2 powi ey" by (intro divide_right_mono) simp_all
    moreover have "(2::rat) powi (ey + 52) / 2 powi ey = of_int (2 ^ 52)" by (simp add: power_int_add)
    ultimately have "round_ties_even (of_int (2 ^ 52)) \<le> round_ties_even (y / 2 powi ey)"
      by (intro round_ties_even_mono) simp
    then have "(of_int (2 ^ 52) :: rat) \<le> of_int (round_ties_even (y / 2 powi ey))"
      by (simp only: round_ties_even_of_int of_int_le_iff)
    then have "of_int (2 ^ 52) * 2 powi ey \<le> round_binary64 y"
      unfolding ry by (intro mult_right_mono) simp_all
    moreover have "of_int (2 ^ 52) * 2 powi ey = (2::rat) powi (ey + 52)" by (simp add: power_int_add)
    ultimately have "2 powi (ey + 52) \<le> round_binary64 y" by simp
    with A show ?thesis by simp
  qed
qed

section \<open>Arithmetic of the progress handler and of the trim limit\<close>

lemma Number_value_Finite:
  assumes "0 \<le> q" and "round_binary64 q < 2 ^ 1024"
  shows "Number_value q = Finite (round_binary64 q)"
proof -
  have "0 \<le> round_binary64 q" using assms(1) by (rule round_binary64_nonneg)
  then have "\<not> round_binary64 q \<le> - (2 ^ 1024)" by simp
  with assms(2) show ?thesis by (simp add: Number_value_def Let_def)
qed

lemma round_binary64_of_int:
  assumes "0 < i" and "i < 2 ^ 53"
  shows "round_binary64 (of_int i) = of_int i"
proof -
  define q :: rat where "q = of_int i"
  define L where "L = floorlog2 q"
  have q: "0 < q" "1 \<le> q" "q < 2 ^ 53" using assms by (simp_all add: q_def)
  have "(2::rat) powi 0 \<le> q" using q(2) by simp
  also have "q < 2 powi (L + 1)" unfolding L_def using q(1) by (rule floorlog2_bounds)
  finally have L0: "0 \<le> L" using pow2_less_cancel [of 0 "L + 1"] by simp
  have "2 powi L \<le> q" unfolding L_def using q(1) by (rule floorlog2_bounds)
  also have "q < 2 powi 53" using q(3) by simp
  finally have L52: "L \<le> 52" using pow2_less_cancel [of L 53] by simp
  define k where "k = nat (52 - L)"
  have e: "ulp_exponent q = - int k" using L0 L52 q(1) by (simp add: ulp_exponent_def L_def [symmetric] k_def)
  have p: "(2::rat) powi (- int k) = 1 / 2 ^ k" by (simp add: power_int_minus_divide)
  have "q / 2 powi (- int k) = of_int (i * 2 ^ k)" by (simp add: p q_def)
  then have "round_ties_even (q / 2 powi (- int k)) = i * 2 ^ k"
    by (simp only: round_ties_even_of_int)
  then have "round_binary64 q = of_int (i * 2 ^ k) * (1 / 2 ^ k)"
    using q(1) by (simp add: round_binary64_def e p)
  then show ?thesis by (simp add: q_def)
qed

lemma Number_value_of_int:
  assumes "0 \<le> i" and "i < 2 ^ 53"
  shows "Number_value (of_int i) = Finite (of_int i)"
proof (cases "i = 0")
  case True
  then show ?thesis by (simp add: Number_value_def round_binary64_def)
next
  case False
  with assms have "round_binary64 (of_int i) = of_int i" by (intro round_binary64_of_int) simp_all
  moreover have "(of_int i :: rat) < 2 ^ 1024"
  proof -
    have "i < 2 ^ 1024" using assms(2) by simp
    then have "(of_int i :: rat) < of_int (2 ^ 1024)" by (simp only: of_int_less_iff)
    then show ?thesis by simp
  qed
  moreover have "\<not> (of_int i :: rat) \<le> - (2 ^ 1024)" using assms(1) by simp
  ultimately show ?thesis by (simp add: Number_value_def Let_def)
qed

lemma Number_value_numeral:
  assumes "(numeral w :: int) < 2 ^ 53"
  shows "Number_value (numeral w) = Finite (numeral w)"
  using Number_value_of_int [of "numeral w"] assms by simp

lemma round_binary64_numeral:
  assumes "(numeral w :: int) < 2 ^ 53"
  shows "round_binary64 (numeral w) = numeral w"
  using round_binary64_of_int [of "numeral w"] assms by simp

lemma round_binary64_100: "round_binary64 100 = 100"
  by (simp add: round_binary64_numeral)

lemma round_binary64_30: "round_binary64 30 = 30"
  by (simp add: round_binary64_numeral)

lemma round_binary64_90: "round_binary64 90 = 90"
  by (simp add: round_binary64_numeral)

lemma six_tenths_nonneg: "0 \<le> six_tenths"
  by (simp add: six_tenths_def)

lemma round_binary64_six_tenths: "round_binary64 (6 / 10) = six_tenths"
  unfolding six_tenths_def
  using round_binary64_eqI [of "- 53" "6 / 10" 5404319552844595] by simp

lemma round_binary64_sixty: "round_binary64 (100 * six_tenths) = 60"
  unfolding six_tenths_def
  using round_binary64_eqI [of "- 47" "100 * (5404319552844595 / 9007199254740992)" "60 * 2 ^ 47"] by simp

lemma Number_value_six_tenths: "Number_value (6 / 10) = Finite six_tenths"
  unfolding Number_value_def round_binary64_six_tenths by (simp add: six_tenths_def)

lemma bounded_Number_value:
  assumes "0 \<le> x" and "x \<le> b" and "round_binary64 b = b'" and "b' < 2 ^ 1024"
  shows "Number_value x = Finite (round_binary64 x)" and "0 \<le> round_binary64 x" and "round_binary64 x \<le> b'"
proof -
  show 1: "round_binary64 x \<le> b'" using round_binary64_mono [OF assms(1,2)] assms(3) by simp
  show "0 \<le> round_binary64 x" using assms(1) by (rule round_binary64_nonneg)
  from 1 assms(4) have "round_binary64 x < 2 ^ 1024" by simp
  with assms(1) show "Number_value x = Finite (round_binary64 x)" by (rule Number_value_Finite)
qed

lemma composite_percent_unit:
  assumes "0 \<le> x" and "x \<le> 1"
  shows "composite_percent (Finite x) = Finite (composite_value x)" and "30 \<le> composite_value x" and "composite_value x \<le> 90"
proof -
  define A where "A = round_binary64 (x * 100)"
  define n where "n = \<lfloor>A + 1 / 2\<rfloor>"
  define B where "B = round_binary64 (of_int n * six_tenths)"
  have x100: "0 \<le> x * 100" "x * 100 \<le> 100" using assms by simp_all
  have A: "Number_value (x * 100) = Finite A" "0 \<le> A" "A \<le> 100"
    unfolding A_def using bounded_Number_value [OF x100 round_binary64_100] by simp_all
  have n: "0 \<le> n" "n \<le> 100" using A(2,3) unfolding n_def by linarith+
  have nc: "0 \<le> of_int n * six_tenths" "of_int n * six_tenths \<le> 100 * six_tenths"
    using n six_tenths_nonneg by (simp_all add: mult_right_mono)
  have B: "Number_value (of_int n * six_tenths) = Finite B" "0 \<le> B" "B \<le> 60"
    unfolding B_def using bounded_Number_value [OF nc round_binary64_sixty] by simp_all
  have c30: "0 \<le> 30 + B" "30 + B \<le> 90" "(30::rat) \<le> 30 + B" using B(2,3) by simp_all
  have C: "Number_value (30 + B) = Finite (round_binary64 (30 + B))" "round_binary64 (30 + B) \<le> 90"
    using bounded_Number_value [OF c30(1,2) round_binary64_90] by simp_all
  have cp: "composite_value x = round_binary64 (30 + B)" by (simp add: composite_value_def B_def n_def A_def)
  have "composite_percent (Finite x) = Number_add (Finite 30) (Number_multiply (Math_round (Finite A)) (Finite six_tenths))"
    unfolding composite_percent_def Number_value_six_tenths by (simp add: A(1))
  also have "\<dots> = Number_add (Finite 30) (Finite B)"
    by (simp add: n_def [symmetric] B(1))
  also have "\<dots> = Finite (composite_value x)" by (simp add: C(1) cp)
  finally show "composite_percent (Finite x) = Finite (composite_value x)" .
  show "composite_value x \<le> 90" using C(2) by (simp add: cp)
  have "round_binary64 30 \<le> round_binary64 (30 + B)" using c30(3) by (intro round_binary64_mono) simp_all
  then show "30 \<le> composite_value x" by (simp add: cp round_binary64_30)
qed

lemma composite_value_mono:
  assumes "0 \<le> x" and "x \<le> y" and "y \<le> 1"
  shows "composite_value x \<le> composite_value y"
proof -
  have 1: "round_binary64 (x * 100) \<le> round_binary64 (y * 100)"
    using assms by (intro round_binary64_mono) simp_all
  have 0: "0 \<le> round_binary64 (x * 100)" using assms by (intro round_binary64_nonneg) simp
  have 2: "\<lfloor>round_binary64 (x * 100) + 1 / 2\<rfloor> \<le> \<lfloor>round_binary64 (y * 100) + 1 / 2\<rfloor>"
    using 1 by (intro floor_mono) simp
  have 3: "0 \<le> \<lfloor>round_binary64 (x * 100) + 1 / 2\<rfloor>" using 0 by linarith
  have 4: "round_binary64 (of_int \<lfloor>round_binary64 (x * 100) + 1 / 2\<rfloor> * six_tenths)
      \<le> round_binary64 (of_int \<lfloor>round_binary64 (y * 100) + 1 / 2\<rfloor> * six_tenths)"
    using 2 3 six_tenths_nonneg by (intro round_binary64_mono mult_right_mono mult_nonneg_nonneg) simp_all
  have 5: "0 \<le> round_binary64 (of_int \<lfloor>round_binary64 (x * 100) + 1 / 2\<rfloor> * six_tenths)"
    using 3 six_tenths_nonneg by (intro round_binary64_nonneg mult_nonneg_nonneg) simp_all
  show ?thesis unfolding composite_value_def
    using 4 5 by (intro round_binary64_mono) simp_all
qed

lemma composite_value_1: "composite_value 1 = 90"
proof -
  have "\<lfloor>(100::rat) + 1 / 2\<rfloor> = 100" by linarith
  then have "composite_value 1 = round_binary64 (30 + round_binary64 (100 * six_tenths))"
    unfolding composite_value_def by (simp add: round_binary64_100)
  then show ?thesis by (simp add: round_binary64_sixty round_binary64_90)
qed

lemma composite_value_0: "composite_value 0 = 30"
proof -
  have "\<lfloor>(0::rat) + 1 / 2\<rfloor> = 0" by linarith
  then have "composite_value 0 = round_binary64 (30 + round_binary64 0)"
    unfolding composite_value_def by (simp add: round_binary64_def)
  then show ?thesis by (simp add: round_binary64_def [of 0] round_binary64_30)
qed

lemma composite_percent_one: "composite_percent (Finite 1) = Finite 90"
  by (simp add: composite_percent_unit(1) composite_value_1)

lemma composite_percent_zero: "composite_percent (Finite 0) = Finite 30"
  by (simp add: composite_percent_unit(1) composite_value_0)

lemma Number_toString_7: "Number_toString (Finite 7) = ''7''"
  by (simp add: shortest.simps candidates_def candidate_value_def floorlog10_def compute_floorlog
    Number_value_numeral Number_format_def digits.simps)

lemma Number_subtract_10_3: "Number_subtract (Finite 10) (Finite 3) = Finite 7"
  by (simp add: Number_subtract_def Number_value_numeral)

lemma round_binary64_exact:
  assumes "q = of_int m * 2 powi e" and "ulp_exponent q \<le> e" and "q \<noteq> 0"
  shows "round_binary64 q = q"
proof -
  define e' where "e' = ulp_exponent q"
  define k where "k = nat (e - e')"
  have e: "e = e' + int k" using assms(2) by (simp add: k_def e'_def)
  have "q / 2 powi e' = of_int m * (2 powi (e' + int k) / 2 powi e')" by (simp add: assms(1) e)
  also have "(2::rat) powi (e' + int k) / 2 powi e' = 2 ^ k" by (simp add: power_int_add)
  finally have "q / 2 powi e' = of_int (m * 2 ^ k)" by simp
  then have "round_ties_even (q / 2 powi e') = m * 2 ^ k" by (simp only: round_ties_even_of_int)
  then have "round_binary64 q = of_int (m * 2 ^ k) * 2 powi e'"
    using assms(3) by (simp add: round_binary64_def e'_def)
  also have "\<dots> = of_int m * (2 powi e' * 2 ^ k)" by simp
  also have "(2::rat) powi e' * 2 ^ k = 2 powi e" by (simp add: e power_int_add)
  finally show ?thesis by (simp add: assms(1))
qed

lemma ulp_exponent_mono:
  assumes "0 < x" and "x \<le> y"
  shows "ulp_exponent x \<le> ulp_exponent y"
  using floorlog2_mono [of x y] assms by (simp add: ulp_exponent_def)

lemma subtract_three_exact:
  assumes "round_binary64 x = x" and "3 < x" and "x < 2 ^ 53"
  shows "round_binary64 (x - 3) = x - 3"
proof -
  define e where "e = ulp_exponent x"
  define m where "m = round_ties_even (x / 2 powi e)"
  have x0: "0 < x" "x \<noteq> 0" using assms(2) by simp_all
  have x: "x = of_int m * 2 powi e"
    using assms(1) x0 by (simp add: round_binary64_def e_def m_def Let_def)
  have "2 powi floorlog2 x \<le> x" using x0(1) by (rule floorlog2_bounds)
  also have "x < 2 powi 53" using assms(3) by simp
  finally have "floorlog2 x < 53" by (rule pow2_less_cancel)
  moreover have "(2::rat) powi 1 < x" using assms(2) by simp
  then have "(2::rat) powi 1 < 2 powi (floorlog2 x + 1)"
    using floorlog2_bounds(2) [OF x0(1)] by (rule less_trans)
  then have "1 < floorlog2 x + 1" by (rule pow2_less_cancel)
  ultimately have e: "e \<le> 0" "- 1074 \<le> e" using x0 by (simp_all add: e_def ulp_exponent_def)
  define k where "k = nat (- e)"
  have ek: "e = - int k" using e(1) by (simp add: k_def)
  have three: "(3::rat) = of_int (3 * 2 ^ k) * 2 powi e"
    by (simp add: ek power_int_minus_divide)
  have "x - 3 = of_int m * 2 powi e - of_int (3 * 2 ^ k) * 2 powi e"
    using x three by simp
  also have "\<dots> = of_int (m - 3 * 2 ^ k) * 2 powi e"
    by (simp only: of_int_diff left_diff_distrib)
  finally have d: "x - 3 = of_int (m - 3 * 2 ^ k) * 2 powi e" .
  have "ulp_exponent (x - 3) \<le> ulp_exponent x"
    using assms(2) by (intro ulp_exponent_mono) simp_all
  then have "ulp_exponent (x - 3) \<le> e" by (simp add: e_def)
  moreover have "x - 3 \<noteq> 0" using assms(2) by simp
  ultimately show ?thesis using d by (intro round_binary64_exact)
qed

lemma Number_subtract_three:
  assumes "round_binary64 x = x" and "3 < x" and "x < 2 ^ 53"
  shows "Number_subtract (Finite x) (Finite 3) = Finite (x - 3)"
proof -
  have r: "round_binary64 (x - 3) = x - 3" using assms by (rule subtract_three_exact)
  have "x - 3 < 2 ^ 53" using assms(3) by simp
  also have "(2::rat) ^ 53 < 2 ^ 1024" by simp
  finally have "x - 3 < 2 ^ 1024" .
  moreover have "\<not> x - 3 \<le> - (2 ^ 1024)" using assms(2) by simp
  ultimately have "Number_value (x - 3) = Finite (x - 3)"
    unfolding Number_value_def r by (simp add: Let_def)
  then show ?thesis by (simp add: Number_subtract_def)
qed

section \<open>The rendering of Numbers\<close>

text \<open>
  The decimal exponent from which the digit search starts is the one of the value, and a digit
  string found with fewer than 17 digits denotes a decimal that reads back as the Number
  rendered.
\<close>

lemma floorlog10_bounds:
  assumes "0 < q"
  shows "10 powi floorlog10 q \<le> q" and "q < 10 powi (floorlog10 q + 1)"
proof -
  have "10 powi floorlog10 q \<le> q \<and> q < 10 powi (floorlog10 q + 1)"
  proof (cases "1 \<le> q")
    case True
    define n where "n = nat \<lfloor>q\<rfloor>"
    have n: "0 < n" using True by (simp add: n_def)
    have L: "floorlog10 q = int (floorlog 10 n) - 1" using True by (simp add: floorlog10_def n_def)
    from floorlog_bounds [of n 10] n
    have lo: "10 ^ (floorlog 10 n - 1) \<le> n" and hi: "n < 10 ^ floorlog 10 n" by simp_all
    have b1: "1 \<le> floorlog 10 n" using hi n by (cases "floorlog 10 n") simp_all
    have nq: "rat_of_nat n \<le> q" "q < rat_of_nat (n + 1)"
      using True unfolding n_def by (simp_all add: of_nat_nat) linarith+
    have "(10::rat) powi (int (floorlog 10 n) - 1) = of_nat (10 ^ (floorlog 10 n - 1))"
      using b1 by (simp add: power_int_def nat_diff_distrib)
    also have "\<dots> \<le> of_nat n" using lo by (simp only: of_nat_le_iff)
    also have "\<dots> \<le> q" by (rule nq)
    finally have A: "10 powi floorlog10 q \<le> q" by (simp add: L)
    have "n + 1 \<le> 10 ^ floorlog 10 n" using hi by simp
    then have "rat_of_nat (n + 1) \<le> of_nat (10 ^ floorlog 10 n)" by (simp only: of_nat_le_iff)
    with nq(2) have "q < of_nat (10 ^ floorlog 10 n)" by simp
    also have "rat_of_nat (10 ^ floorlog 10 n) = 10 powi (floorlog10 q + 1)"
      by (simp add: L)
    finally show ?thesis using A by simp
  next
    case False
    define m where "m = nat (\<lceil>1 / q\<rceil> - 1)"
    have r: "1 < 1 / q" using False assms by simp
    then have c2: "2 \<le> \<lceil>1 / q\<rceil>" by (simp add: le_ceiling_iff)
    then have m: "0 < m" by (simp add: m_def)
    have mq: "1 / q \<le> rat_of_nat (m + 1)" "rat_of_nat m < 1 / q"
      using c2 unfolding m_def by (simp_all add: of_nat_nat) linarith+
    have L: "floorlog10 q = - int (floorlog 10 m)" using False by (simp add: floorlog10_def m_def)
    from floorlog_bounds [of m 10] m
    have lo: "10 ^ (floorlog 10 m - 1) \<le> m" and hi: "m < 10 ^ floorlog 10 m" by simp_all
    have b1: "1 \<le> floorlog 10 m" using hi m by (cases "floorlog 10 m") simp_all
    have "m + 1 \<le> 10 ^ floorlog 10 m" using hi by simp
    then have "rat_of_nat (m + 1) \<le> of_nat (10 ^ floorlog 10 m)" by (simp only: of_nat_le_iff)
    with mq(1) have "1 / q \<le> 10 ^ floorlog 10 m" by simp
    then have "1 \<le> 10 ^ floorlog 10 m * q" using assms by (simp add: pos_divide_le_eq)
    then have A: "10 powi floorlog10 q \<le> q"
      by (simp add: L power_int_minus field_simps)
    have "rat_of_nat (10 ^ (floorlog 10 m - 1)) \<le> of_nat m" using lo by (simp only: of_nat_le_iff)
    with mq(2) have "rat_of_nat (10 ^ (floorlog 10 m - 1)) < 1 / q" by linarith
    then have "(10::rat) ^ (floorlog 10 m - 1) < 1 / q" by simp
    then have "q < 1 / 10 ^ (floorlog 10 m - 1)" using assms by (simp add: field_simps)
    also have "1 / (10::rat) ^ (floorlog 10 m - 1) = 10 powi (- int (floorlog 10 m - 1))"
      by (simp add: power_int_minus_divide)
    also have "- int (floorlog 10 m - 1) = floorlog10 q + 1" using b1 by (simp add: L)
    finally show ?thesis using A by simp
  qed
  then show "10 powi floorlog10 q \<le> q" and "q < 10 powi (floorlog10 q + 1)" by simp_all
qed

lemma shortest_round_trip:
  assumes "shortest q n0 k = (n, k', s)" and "k' < 17"
  shows "Number_value (candidate_value k' (n, s)) = Finite q"
  using assms
proof (induction q n0 k rule: shortest.induct)
  case (1 q n0 k)
  let ?cs = "filter (\<lambda>c. Number_value (candidate_value k c) = Finite q) (candidates q n0 k)"
  have valid: "Number_value (candidate_value k c) = Finite q" if "c \<in> set ?cs" for c
    using that by simp
  show ?case
  proof (cases "17 \<le> k")
    case True
    then have "k' = k" using "1.prems"(1)
      by (subst (asm) shortest.simps) (auto simp add: candidates_def Let_def split: prod.splits)
    with True "1.prems"(2) show ?thesis by simp
  next
    case False
    show ?thesis
    proof (cases ?cs)
      case Nil
      then have "shortest q n0 (Suc k) = (n, k', s)"
        using "1.prems"(1) False by (subst (asm) shortest.simps) simp
      then show ?thesis using "1.IH" [OF False Nil] "1.prems"(2) by simp
    next
      case (Cons c cs)
      note outer = Cons
      show ?thesis
      proof (cases cs)
        case Nil
        then have "(n, k', s) = (fst c, k, snd c)"
          using "1.prems"(1) False outer by (subst (asm) shortest.simps) simp
        moreover have "c \<in> set ?cs" using outer by simp
        ultimately show ?thesis using valid [of c] by simp
      next
        case (Cons c' cs')
        then have e: "(case closest q k c c' of (n, s) \<Rightarrow> (n, k, s)) = (n, k', s)"
          using "1.prems"(1) False outer by (subst (asm) shortest.simps) simp
        have "closest q k c c' = c \<or> closest q k c c' = c'" by (simp add: closest_def Let_def)
        moreover have "c \<in> set ?cs" "c' \<in> set ?cs" using outer Cons by simp_all
        ultimately show ?thesis using e valid [of c] valid [of c'] by (auto split: prod.splits)
      qed
    qed
  qed
qed

section \<open>The steps of a trim run\<close>

lemma timeout_fires_frame [simp]:
  "currentVideo (timeout_fires s) = currentVideo s"
  "processedVideo (timeout_fires s) = processedVideo s"
  "error (timeout_fires s) = error s"
  "info (timeout_fires s) = info s"
  "isDragOver (timeout_fires s) = isDragOver s"
  "isProcessing (timeout_fires s) = isProcessing s"
  "ffmpegReady (timeout_fires s) = ffmpegReady s"
  "ffmpegRef (timeout_fires s) = ffmpegRef s"
  "url_log (timeout_fires s) = url_log s"
  "next_url (timeout_fires s) = next_url s"
  by (simp_all add: timeout_fires_def setProgress_def)

lemma funpow_timeout_fires_frame:
  "currentVideo ((timeout_fires ^^ n) s) = currentVideo s"
  "processedVideo ((timeout_fires ^^ n) s) = processedVideo s"
  "error ((timeout_fires ^^ n) s) = error s"
  "info ((timeout_fires ^^ n) s) = info s"
  "isDragOver ((timeout_fires ^^ n) s) = isDragOver s"
  "isProcessing ((timeout_fires ^^ n) s) = isProcessing s"
  "ffmpegReady ((timeout_fires ^^ n) s) = ffmpegReady s"
  "ffmpegRef ((timeout_fires ^^ n) s) = ffmpegRef s"
  "url_log ((timeout_fires ^^ n) s) = url_log s"
  "next_url ((timeout_fires ^^ n) s) = next_url s"
  by (induction n; simp)+

lemma await_at_frame [simp]:
  "currentVideo (await_at env p s) = currentVideo s"
  "processedVideo (await_at env p s) = processedVideo s"
  "error (await_at env p s) = error s"
  "info (await_at env p s) = info s"
  "isDragOver (await_at env p s) = isDragOver s"
  "isProcessing (await_at env p s) = isProcessing s"
  "ffmpegReady (await_at env p s) = ffmpegReady s"
  "ffmpegRef (await_at env p s) = ffmpegRef s"
  "url_log (await_at env p s) = url_log s"
  "next_url (await_at env p s) = next_url s"
  by (simp_all add: await_at_def funpow_timeout_fires_frame)

lemma funpow_timeout_fires:
  "(timeout_fires ^^ n) s =
     (if n = 0 \<or> timeouts s = 0 then s
      else s\<lparr>progress := progress_reset,
             progress_log := progress_log s @ replicate (min n (timeouts s)) progress_reset,
             timeouts := timeouts s - n\<rparr>)"
proof (induction n)
  case 0
  then show ?case by simp
next
  case (Suc n)
  show ?case
  proof (cases "timeouts s = 0")
    case True
    then show ?thesis using Suc by (simp add: timeout_fires_def)
  next
    case False
    show ?thesis
    proof (cases "n = 0")
      case True
      then show ?thesis using False
        by (simp add: timeout_fires_def setProgress_def progress_reset_def)
    next
      case n: False
      show ?thesis
      proof (cases "timeouts s \<le> n")
        case True
        then show ?thesis using Suc False n
          by (simp add: timeout_fires_def min_def)
      next
        case False
        then show ?thesis using Suc n
          by (simp add: timeout_fires_def setProgress_def progress_reset_def min_def
              replicate_append_same)
      qed
    qed
  qed
qed

lemma await_at_eq:
  "await_at env p s =
     (if timers_due env p = 0 \<or> timeouts s = 0 then s
      else s\<lparr>progress := progress_reset,
             progress_log := progress_log s @
               replicate (min (timers_due env p) (timeouts s)) progress_reset,
             timeouts := timeouts s - timers_due env p\<rparr>)"
  by (simp add: await_at_def funpow_timeout_fires)

lemma await_at_idle:
  "timeouts s = 0 \<Longrightarrow> await_at env p s = s"
  "timers_due env p = 0 \<Longrightarrow> await_at env p s = s"
  by (simp_all add: await_at_eq)

lemma await_at_quiet:
  "timeouts s = 0 \<or> (\<forall>p. timers_due env p = 0) \<Longrightarrow> await_at env p s = s"
  by (auto simp add: await_at_idle)

lemma await_at_percents:
  "map percent (progress_log (await_at env p s)) =
     map percent (progress_log s) @ replicate (min (timers_due env p) (timeouts s)) (Finite 0)"
  by (simp add: await_at_eq progress_reset_def)

lemma await_at_timeouts: "timeouts (await_at env p s) = timeouts s - timers_due env p"
  by (simp add: await_at_eq)

lemma on_progress_frame:
  "currentVideo (on_progress p s) = currentVideo s"
  "processedVideo (on_progress p s) = processedVideo s"
  "error (on_progress p s) = error s"
  "info (on_progress p s) = info s"
  "isDragOver (on_progress p s) = isDragOver s"
  "isProcessing (on_progress p s) = isProcessing s"
  "ffmpegReady (on_progress p s) = ffmpegReady s"
  "ffmpegRef (on_progress p s) = ffmpegRef s"
  "url_log (on_progress p s) = url_log s"
  "next_url (on_progress p s) = next_url s"
  "timeouts (on_progress p s) = timeouts s"
  by (simp_all add: on_progress_def setProgress_def Let_def)

lemma fold_on_progress_frame [simp]:
  "currentVideo (fold on_progress ps s) = currentVideo s"
  "processedVideo (fold on_progress ps s) = processedVideo s"
  "error (fold on_progress ps s) = error s"
  "info (fold on_progress ps s) = info s"
  "isDragOver (fold on_progress ps s) = isDragOver s"
  "isProcessing (fold on_progress ps s) = isProcessing s"
  "ffmpegReady (fold on_progress ps s) = ffmpegReady s"
  "ffmpegRef (fold on_progress ps s) = ffmpegRef s"
  "url_log (fold on_progress ps s) = url_log s"
  "next_url (fold on_progress ps s) = next_url s"
  "timeouts (fold on_progress ps s) = timeouts s"
  by (induction ps arbitrary: s; simp add: on_progress_frame)+

lemma fold_on_progress_percents [simp]:
  "map percent (progress_log (fold on_progress ps s)) =
     map percent (progress_log s) @ map composite_percent ps"
  by (induction ps arbitrary: s) (simp_all add: on_progress_def setProgress_def Let_def composite_percent_def)

lemma deliver_progress_frame [simp]:
  "currentVideo (deliver_progress env k ps s) = currentVideo s"
  "processedVideo (deliver_progress env k ps s) = processedVideo s"
  "error (deliver_progress env k ps s) = error s"
  "info (deliver_progress env k ps s) = info s"
  "isDragOver (deliver_progress env k ps s) = isDragOver s"
  "isProcessing (deliver_progress env k ps s) = isProcessing s"
  "ffmpegReady (deliver_progress env k ps s) = ffmpegReady s"
  "ffmpegRef (deliver_progress env k ps s) = ffmpegRef s"
  "url_log (deliver_progress env k ps s) = url_log s"
  "next_url (deliver_progress env k ps s) = next_url s"
  by (induction ps arbitrary: k s; simp add: on_progress_frame)+

lemma deliver_progress_quiet:
  "timeouts s = 0 \<or> (\<forall>p. timers_due env p = 0) \<Longrightarrow>
     deliver_progress env k ps s = fold on_progress ps s"
  by (induction ps arbitrary: k s) (simp_all add: on_progress_frame await_at_quiet)

lemma setProgress_frame [simp]:
  "currentVideo (setProgress p s) = currentVideo s"
  "processedVideo (setProgress p s) = processedVideo s"
  "error (setProgress p s) = error s"
  "info (setProgress p s) = info s"
  "isDragOver (setProgress p s) = isDragOver s"
  "isProcessing (setProgress p s) = isProcessing s"
  "ffmpegReady (setProgress p s) = ffmpegReady s"
  "ffmpegRef (setProgress p s) = ffmpegRef s"
  "url_log (setProgress p s) = url_log s"
  "next_url (setProgress p s) = next_url s"
  "timeouts (setProgress p s) = timeouts s"
  "progress (setProgress p s) = p"
  "progress_log (setProgress p s) = progress_log s @ [p]"
  by (simp_all add: setProgress_def)

lemma writeFile_frame [simp]:
  "currentVideo (snd (writeFile env path d s)) = currentVideo s"
  "processedVideo (snd (writeFile env path d s)) = processedVideo s"
  "error (snd (writeFile env path d s)) = error s"
  "info (snd (writeFile env path d s)) = info s"
  "isDragOver (snd (writeFile env path d s)) = isDragOver s"
  "isProcessing (snd (writeFile env path d s)) = isProcessing s"
  "ffmpegReady (snd (writeFile env path d s)) = ffmpegReady s"
  "url_log (snd (writeFile env path d s)) = url_log s"
  "next_url (snd (writeFile env path d s)) = next_url s"
  "timeouts (snd (writeFile env path d s)) = timeouts s"
  "progress (snd (writeFile env path d s)) = progress s"
  "progress_log (snd (writeFile env path d s)) = progress_log s"
  by (simp_all add: writeFile_def split: option.splits)

lemma readFile_frame [simp]:
  "currentVideo (snd (readFile env path s)) = currentVideo s"
  "processedVideo (snd (readFile env path s)) = processedVideo s"
  "error (snd (readFile env path s)) = error s"
  "info (snd (readFile env path s)) = info s"
  "isDragOver (snd (readFile env path s)) = isDragOver s"
  "isProcessing (snd (readFile env path s)) = isProcessing s"
  "ffmpegReady (snd (readFile env path s)) = ffmpegReady s"
  "url_log (snd (readFile env path s)) = url_log s"
  "next_url (snd (readFile env path s)) = next_url s"
  "timeouts (snd (readFile env path s)) = timeouts s"
  "progress (snd (readFile env path s)) = progress s"
  "progress_log (snd (readFile env path s)) = progress_log s"
  by (simp_all add: readFile_def Let_def split: option.splits)

lemma deleteFile_frame [simp]:
  "currentVideo (snd (deleteFile env path s)) = currentVideo s"
  "processedVideo (snd (deleteFile env path s)) = processedVideo s"
  "error (snd (deleteFile env path s)) = error s"
  "info (snd (deleteFile env path s)) = info s"
  "isDragOver (snd (deleteFile env path s)) = isDragOver s"
  "isProcessing (snd (deleteFile env path s)) = isProcessing s"
  "ffmpegReady (snd (deleteFile env path s)) = ffmpegReady s"
  "url_log (snd (deleteFile env path s)) = url_log s"
  "next_url (snd (deleteFile env path s)) = next_url s"
  "timeouts (snd (deleteFile env path s)) = timeouts s"
  "progress (snd (deleteFile env path s)) = progress s"
  "progress_log (snd (deleteFile env path s)) = progress_log s"
  by (simp_all add: deleteFile_def split: option.splits)

lemma exec_frame [simp]:
  "currentVideo (snd (exec env args s)) = currentVideo s"
  "processedVideo (snd (exec env args s)) = processedVideo s"
  "error (snd (exec env args s)) = error s"
  "info (snd (exec env args s)) = info s"
  "isDragOver (snd (exec env args s)) = isDragOver s"
  "isProcessing (snd (exec env args s)) = isProcessing s"
  "ffmpegReady (snd (exec env args s)) = ffmpegReady s"
  "url_log (snd (exec env args s)) = url_log s"
  "next_url (snd (exec env args s)) = next_url s"
  by (simp_all add: exec_def Let_def split: option.splits exec_result.splits)

lemma exec_quiet:
  "timeouts s = 0 \<or> (\<forall>p. timers_due env p = 0) \<Longrightarrow>
     timeouts (snd (exec env args s)) = timeouts s"
  by (simp add: exec_def Let_def deliver_progress_quiet split: option.splits exec_result.splits)

lemma exec_percents:
  "ffmpegRef s \<noteq> None \<Longrightarrow> timeouts s = 0 \<or> (\<forall>p. timers_due env p = 0) \<Longrightarrow>
     map percent (progress_log (snd (exec env args s))) =
     map percent (progress_log s) @ map composite_percent (exec_progress env)"
  by (auto simp add: exec_def Let_def deliver_progress_quiet split: option.splits exec_result.splits)

lemma engine_present [simp]:
  "ffmpegRef (snd (writeFile env path d s)) = None \<longleftrightarrow> ffmpegRef s = None"
  "ffmpegRef (snd (exec env args s)) = None \<longleftrightarrow> ffmpegRef s = None"
  "ffmpegRef (snd (readFile env path s)) = None \<longleftrightarrow> ffmpegRef s = None"
  "ffmpegRef (snd (deleteFile env path s)) = None \<longleftrightarrow> ffmpegRef s = None"
  by (simp_all add: writeFile_def exec_def readFile_def deleteFile_def Let_def
      split: option.splits exec_result.splits)


lemma case_option_const:
  "(case x of None \<Rightarrow> a | Some y \<Rightarrow> b) = (if x = None then a else b)"
  by (cases x) simp_all

lemma workspace_updates [simp]:
  "workspace (s\<lparr>processedVideo := pv\<rparr>) = workspace s"
  "workspace (s\<lparr>url_log := ul\<rparr>) = workspace s"
  "workspace (s\<lparr>next_url := nu\<rparr>) = workspace s"
  "workspace (s\<lparr>timeouts := n\<rparr>) = workspace s"
  "workspace (s\<lparr>error := msg\<rparr>) = workspace s"
  "workspace (s\<lparr>isProcessing := b\<rparr>) = workspace s"
  by (simp_all add: workspace_def)

lemma engine_calls_updates [simp]:
  "engine_calls (s\<lparr>processedVideo := pv\<rparr>) = engine_calls s"
  "engine_calls (s\<lparr>url_log := ul\<rparr>) = engine_calls s"
  "engine_calls (s\<lparr>next_url := nu\<rparr>) = engine_calls s"
  "engine_calls (s\<lparr>timeouts := n\<rparr>) = engine_calls s"
  "engine_calls (s\<lparr>error := msg\<rparr>) = engine_calls s"
  "engine_calls (s\<lparr>isProcessing := b\<rparr>) = engine_calls s"
  by (simp_all add: engine_calls_def)

lemma workspace_setProgress [simp]: "workspace (setProgress p s) = workspace s"
  by (simp add: workspace_def)

lemma engine_calls_setProgress [simp]: "engine_calls (setProgress p s) = engine_calls s"
  by (simp add: engine_calls_def)

lemma workspace_await_at [simp]: "workspace (await_at env p s) = workspace s"
  by (simp add: workspace_def)

lemma engine_calls_await_at [simp]: "engine_calls (await_at env p s) = engine_calls s"
  by (simp add: engine_calls_def)

lemma writeFile_fst:
  "fst (writeFile env path d s) =
     (case ffmpegRef s of None \<Rightarrow> Some (fs_error env) | Some ffmpeg \<Rightarrow> writeFile_rejects env)"
  by (simp add: writeFile_def split: option.splits)

lemma exec_fst:
  "fst (exec env args s) =
     (case ffmpegRef s of None \<Rightarrow> Some (fs_error env)
      | Some ffmpeg \<Rightarrow> (case exec_outcome env of ExecRejects e \<Rightarrow> Some e | ExecReturns out \<Rightarrow> None))"
  by (simp add: exec_def Let_def split: option.splits exec_result.splits)

lemma readFile_fst:
  "fst (readFile env path s) =
     (case workspace s path of None \<Rightarrow> Inl (fs_error env) | Some d \<Rightarrow> Inr d)"
  by (simp add: readFile_def workspace_def Let_def split: option.splits)

lemma deleteFile_fst:
  "fst (deleteFile env path s) =
     (case workspace s path of None \<Rightarrow> Some (fs_error env) | Some d \<Rightarrow> None)"
  by (simp add: deleteFile_def workspace_def split: option.splits)

lemma workspace_writeFile [simp]:
  "workspace (snd (writeFile env path d s)) =
     (if ffmpegRef s \<noteq> None \<and> writeFile_rejects env = None then (workspace s)(path \<mapsto> d)
      else workspace s)"
  by (simp add: writeFile_def workspace_def split: option.splits)

lemma workspace_exec [simp]:
  "workspace (snd (exec env args s)) =
     (case exec_outcome env of
        ExecReturns (Some out) \<Rightarrow>
          if ffmpegRef s \<noteq> None then (workspace s)(last args \<mapsto> out) else workspace s
      | _ \<Rightarrow> workspace s)"
  by (simp add: exec_def workspace_def Let_def split: option.splits exec_result.splits)

lemma workspace_readFile [simp]: "workspace (snd (readFile env path s)) = workspace s"
  by (simp add: readFile_def workspace_def Let_def split: option.splits)

lemma workspace_deleteFile [simp]:
  "workspace (snd (deleteFile env path s)) = (workspace s)(path := None)"
  by (auto simp add: deleteFile_def workspace_def split: option.splits)

lemma engine_calls_ops [simp]:
  "ffmpegRef s \<noteq> None \<Longrightarrow>
     engine_calls (snd (writeFile env path d s)) = engine_calls s @ [WriteFile path d]"
  "ffmpegRef s \<noteq> None \<Longrightarrow> engine_calls (snd (exec env args s)) = engine_calls s @ [Exec args]"
  "ffmpegRef s \<noteq> None \<Longrightarrow>
     engine_calls (snd (readFile env path s)) = engine_calls s @ [ReadFile path]"
  "ffmpegRef s \<noteq> None \<Longrightarrow>
     engine_calls (snd (deleteFile env path s)) = engine_calls s @ [DeleteFile path]"
  by (auto simp add: writeFile_def exec_def readFile_def deleteFile_def engine_calls_def Let_def
      split: option.splits exec_result.splits)

lemma exec_arguments_append [simp]:
  "exec_arguments (xs @ ys) = exec_arguments xs @ exec_arguments ys"
  by (induction xs rule: exec_arguments.induct) simp_all

lemma createObjectURL_simps [simp]:
  "fst (createObjectURL s) = next_url s"
  "snd (createObjectURL s) =
     s\<lparr>url_log := url_log s @ [CreateObjectURL (next_url s)], next_url := Suc (next_url s)\<rparr>"
  by (simp_all add: createObjectURL_def)

lemma trimVideo_try_failure:
  assumes "fst (trimVideo_try env vf s) = Some e"
  shows "same_outside_engine s (snd (trimVideo_try env vf s))"
  using assms unfolding trimVideo_try_def Let_def
  by (simp add: case_prod_beta same_outside_engine_def split: option.splits sum.splits)

lemma trimVideo_try_success:
  assumes "fst (trimVideo_try env vf s) = None"
  shows "\<exists>out. processedVideo (snd (trimVideo_try env vf s)) =
        Some \<lparr>blob = \<lparr>blob_data = out, blob_type = getMimeType (name (vfile vf))\<rparr>,
          url = next_url s, originalName = name (vfile vf)\<rparr>"
    and "url_log (snd (trimVideo_try env vf s)) =
        url_log s @ [CreateObjectURL (next_url s), CreateObjectURL (Suc (next_url s))]"
    and "next_url (snd (trimVideo_try env vf s)) = Suc (Suc (next_url s))"
    and "currentVideo (snd (trimVideo_try env vf s)) = currentVideo s"
    and "percent (progress (snd (trimVideo_try env vf s))) = Finite 100"
    and "0 < timeouts (snd (trimVideo_try env vf s))"
  using assms unfolding trimVideo_try_def Let_def
  by (simp_all add: case_prod_beta setTimeout_def split: option.splits sum.splits)

lemma trimVideo_try_percents:
  assumes "timeouts s = 0 \<or> (\<forall>p. timers_due env p = 0)"
  shows "run_percents s (snd (trimVideo_try env vf s)) \<in>
     {[Finite 10], [Finite 10, Finite 20],
      [Finite 10, Finite 20, Finite 30] @ map composite_percent (exec_progress env),
      [Finite 10, Finite 20, Finite 30] @ map composite_percent (exec_progress env) @ [Finite 90],
      [Finite 10, Finite 20, Finite 30] @ map composite_percent (exec_progress env)
        @ [Finite 90, Finite 100]}"
  using assms unfolding trimVideo_try_def Let_def
  by (simp add: case_prod_beta setTimeout_def run_percents_def await_at_quiet
      exec_quiet exec_percents split: option.splits sum.splits)

lemma trimVideo_try_success_percents:
  assumes "fst (trimVideo_try env vf s) = None"
    and "timeouts s = 0 \<or> (\<forall>p. timers_due env p = 0)"
  shows "run_percents s (snd (trimVideo_try env vf s)) =
     [Finite 10, Finite 20, Finite 30] @ map composite_percent (exec_progress env)
        @ [Finite 90, Finite 100]"
  using assms unfolding trimVideo_try_def Let_def
  by (simp add: case_prod_beta setTimeout_def run_percents_def await_at_quiet
      exec_quiet exec_percents split: option.splits sum.splits)

lemma trimVideo_try_exec_arguments:
  assumes "ffmpegRef s \<noteq> None" and "writeFile_rejects env = None"
  shows "exec_arguments (engine_calls (snd (trimVideo_try env vf s))) =
     exec_arguments (engine_calls s) @ [trim_arguments (vfile vf) (duration vf)]"
  using assms unfolding trimVideo_try_def Let_def
  by (simp add: case_prod_beta setTimeout_def trim_arguments_def writeFile_fst exec_fst
      readFile_fst deleteFile_fst case_option_const del: not_None_eq
      split: option.splits sum.splits exec_result.splits)

lemma trimVideo_try_exec_rejects:
  assumes "ffmpegRef s \<noteq> None" and "writeFile_rejects env = None"
    and "exec_outcome env = ExecRejects e"
  shows "fst (trimVideo_try env vf s) = Some e"
    and "workspace (snd (trimVideo_try env vf s)) =
      (workspace s)(''input.'' @ getFileExtension (name (vfile vf)) \<mapsto> contents (vfile vf))"
  using assms unfolding trimVideo_try_def Let_def
  by (simp_all add: case_prod_beta writeFile_fst exec_fst case_option_const del: not_None_eq)

lemma trimVideo_try_output_missing:
  assumes "ffmpegRef s \<noteq> None" and "writeFile_rejects env = None"
    and "exec_outcome env = ExecReturns None"
    and "workspace s (''output.'' @ getFileExtension (name (vfile vf))) = None"
  shows "fst (trimVideo_try env vf s) = Some (fs_error env)"
    and "workspace (snd (trimVideo_try env vf s)) =
      (workspace s)(''input.'' @ getFileExtension (name (vfile vf)) \<mapsto> contents (vfile vf))"
  using assms unfolding trimVideo_try_def Let_def
  by (simp_all add: case_prod_beta writeFile_fst exec_fst readFile_fst case_option_const
      del: not_None_eq)

lemma trimVideo_try_success_workspace:
  assumes "fst (trimVideo_try env vf s) = None"
  shows "workspace (snd (trimVideo_try env vf s)) =
      (workspace s)(''input.'' @ getFileExtension (name (vfile vf)) := None,
        ''output.'' @ getFileExtension (name (vfile vf)) := None)"
  using assms unfolding trimVideo_try_def Let_def
  by (simp add: case_prod_beta setTimeout_def
      writeFile_fst exec_fst readFile_fst deleteFile_fst case_option_const del: not_None_eq
      split: option.splits sum.splits exec_result.splits if_splits)

lemma handleFile_accepted:
  assumes "ffmpegReady s" and "probe env = LoadedMetadata d" and "\<not> Number_le d (Finite 3)"
  shows "handleFile env f s = trimVideo env (accepted_video f d s) (accepted_state env f d s)"
  using assms
  by (cases s)
    (simp add: handleFile_def getVideoDuration_def clearMessages_def revokeObjectURL_def
      createObjectURL_def accepted_video_def accepted_state_def await_at_eq Let_def)

lemma trimVideo_fst:
  "fst (trimVideo env vf s) =
     (case fst (trimVideo_try env vf s) of None \<Rightarrow> TrimVideoCompleted | Some e \<Rightarrow> TrimVideoCatch e)"
  by (simp add: trimVideo_def case_prod_beta split: option.splits)

lemma trimVideo_snd:
  "snd (trimVideo env vf s) =
     (case fst (trimVideo_try env vf s) of
        None \<Rightarrow> (snd (trimVideo_try env vf s))\<lparr>isProcessing := False\<rparr>
      | Some e \<Rightarrow> (snd (trimVideo_try env vf s))
          \<lparr>error := ''Error processing video: '' @ template e, isProcessing := False\<rparr>)"
  by (simp add: trimVideo_def case_prod_beta split: option.splits)

section \<open>Intake\<close>

lemma ready_app_ready: "ffmpegReady ready_app"
  by (simp add: ready_app_def loading_app_def initializeFFmpeg_settled_def initializeFFmpeg_start_def
      setProgress_def initial_app_def)

lemma loading_app_not_ready: "\<not> ffmpegReady loading_app"
  by (simp add: loading_app_def initializeFFmpeg_start_def setProgress_def initial_app_def)

lemma failed_app_not_ready: "\<not> ffmpegReady failed_app"
  by (simp add: failed_app_def initializeFFmpeg_settled_def loading_app_def
      initializeFFmpeg_start_def setProgress_def initial_app_def)

text \<open>
  Claim C7. An intake that arrives while the engine is not ready (still loading, or failed to
  load) is rejected: \<^verbatim>\<open>handleFile\<close> returns at once, and the only change to the state is the
  error message saying that the engine is not loaded. No probe is made, no object URL is
  issued, no video is recorded and no engine call is made. The intake is not queued either:
  when the engine later finishes loading, the state is the one it would have been without the
  intake, apart from that error message.
\<close>

theorem not_ready_intake_rejected:
  assumes "\<not> ffmpegReady s"
  shows "handleFile env f s =
      (NotReadyReturn,
       s\<lparr>error := ''FFmpeg is not loaded yet. Please wait for initialization to complete.''\<rparr>)
    \<and> initializeFFmpeg_settled Loaded (snd (handleFile env f s)) =
      (initializeFFmpeg_settled Loaded s)
        \<lparr>error := ''FFmpeg is not loaded yet. Please wait for initialization to complete.''\<rparr>"
  using assms by (simp add: handleFile_def initializeFFmpeg_settled_def setProgress_def)

theorem not_ready_intake_rejected_witness:
  "\<not> ffmpegReady loading_app \<and>
   handleFile probe_fails clip_mp4 loading_app =
     (NotReadyReturn,
      loading_app\<lparr>error := ''FFmpeg is not loaded yet. Please wait for initialization to complete.''\<rparr>) \<and>
   \<not> ffmpegReady failed_app \<and>
   handleFile (engine_succeeds (Finite 10) []) clip_mp4 failed_app =
     (NotReadyReturn,
      failed_app\<lparr>error := ''FFmpeg is not loaded yet. Please wait for initialization to complete.''\<rparr>)"
  using not_ready_intake_rejected [of loading_app probe_fails clip_mp4]
    not_ready_intake_rejected [of failed_app "engine_succeeds (Finite 10) []" clip_mp4]
    loading_app_not_ready failed_app_not_ready
  by simp

text \<open>
  Claim C2. With the engine ready, an intake whose metadata probe fails, and an intake whose
  probed duration \<open>d\<close> satisfies \<open>d \<le> 3\<close>, ends in the \<^verbatim>\<open>catch\<close> clause of
  \<^verbatim>\<open>handleFile\<close> (the outcome ValidationRejected): the error message is set, processing is
  over, and the engine instance is exactly as before, its files and its list of calls
  included, so no write, invocation, read or removal took place.
\<close>

theorem short_or_unprobed_video_rejected:
  assumes "ffmpegReady s"
    and "probe env = VideoError \<or> (\<exists>d. probe env = LoadedMetadata d \<and> Number_le d (Finite 3))"
  shows "(\<exists>e. fst (handleFile env f s) = HandleFileCatch e \<and>
        error (snd (handleFile env f s)) = ''Error processing video: '' @ template e) \<and>
    ffmpegRef (snd (handleFile env f s)) = ffmpegRef s \<and>
    \<not> isProcessing (snd (handleFile env f s))"
  using assms
  by (auto simp add: handleFile_def getVideoDuration_def createObjectURL_def revokeObjectURL_def
      clearMessages_def Let_def)

theorem short_or_unprobed_video_rejected_witness:
  "ffmpegReady ready_app \<and>
   probe (engine_succeeds (Finite (5 / 2)) []) = LoadedMetadata (Finite (5 / 2)) \<and>
   Number_le (Finite (5 / 2)) (Finite 3) \<and>
   fst (handleFile (engine_succeeds (Finite (5 / 2)) []) clip_mp4 ready_app) =
     HandleFileCatch (JSError ''Video is too short (3 seconds or less). Cannot trim 3 seconds.'') \<and>
   ffmpegRef (snd (handleFile (engine_succeeds (Finite (5 / 2)) []) clip_mp4 ready_app)) =
     ffmpegRef ready_app \<and>
   probe probe_fails = VideoError \<and>
   fst (handleFile probe_fails clip_mp4 ready_app) = HandleFileCatch ErrorEvent \<and>
   error (snd (handleFile probe_fails clip_mp4 ready_app)) =
     ''Error processing video: [object Event]'' \<and>
   ffmpegRef (snd (handleFile probe_fails clip_mp4 ready_app)) = ffmpegRef ready_app"
  using short_or_unprobed_video_rejected
    [of ready_app "engine_succeeds (Finite (5 / 2)) []" clip_mp4]
    short_or_unprobed_video_rejected [of ready_app probe_fails clip_mp4] ready_app_ready
  by (simp add: engine_succeeds_def probe_fails_def handleFile_def getVideoDuration_def
      createObjectURL_def revokeObjectURL_def clearMessages_def)

section \<open>The engine invocation\<close>

lemma Number_gt_not_le: "Number_gt d (Finite 3) \<Longrightarrow> \<not> Number_le d (Finite 3)"
  by (cases d) simp_all

lemma handleFile_exec_arguments:
  assumes "ffmpegReady s" and "ffmpegRef s \<noteq> None" and "probe env = LoadedMetadata d"
    and "\<not> Number_le d (Finite 3)" and "writeFile_rejects env = None"
  shows "exec_arguments (engine_calls (snd (handleFile env f s))) =
     exec_arguments (engine_calls s) @ [trim_arguments f d]"
proof -
  have "ffmpegRef (accepted_state env f d s) \<noteq> None" using assms(2) by (simp add: accepted_state_def)
  then have "exec_arguments (engine_calls (snd (trimVideo_try env (accepted_video f d s) (accepted_state env f d s)))) =
     exec_arguments (engine_calls (accepted_state env f d s)) @ [trim_arguments f d]"
    using assms(5) trimVideo_try_exec_arguments [of "accepted_state env f d s" env "accepted_video f d s"]
    by (simp add: accepted_video_def)
  moreover have "engine_calls (accepted_state env f d s) = engine_calls s"
    by (simp add: accepted_state_def engine_calls_def)
  ultimately show ?thesis
    using assms(1,3,4) by (simp add: handleFile_accepted trimVideo_snd split: option.splits)
qed

lemma getFileExtension_examples:
  "getFileExtension ''clip.mp4'' = ''mp4''"
  "getFileExtension ''a.mov'' = ''mov''"
  "getFileExtension ''b.webm'' = ''webm''"
  by (simp_all add: getFileExtension_def toLowerCase_def toLowerCase_char_def)

lemma ready_app_engine:
  "ffmpegRef ready_app = Some \<lparr>files = Map.empty, calls = []\<rparr>"
  "engine_calls ready_app = []" "workspace ready_app = Map.empty"
  "next_url ready_app = 0" "url_log ready_app = []" "processedVideo ready_app = None"
  "currentVideo ready_app = None"
  by (simp_all add: ready_app_def loading_app_def initializeFFmpeg_settled_def initializeFFmpeg_start_def
      initial_app_def engine_calls_def workspace_def)

text \<open>
  Claim C1, as the code has it. For every accepted video, that is every probed duration
  \<open>d\<close> for which \<open>d \<le> 3\<close> does not hold (every \<open>d > 3\<close>, the unbounded duration
  \<open>+\<infinity>\<close> included), with the engine loaded and the input written, the engine is invoked
  once, with the arguments, in this order: \<^verbatim>\<open>-i\<close> and the input path, \<^verbatim>\<open>-t\<close> and the
  trim limit, the stream-copy directive \<^verbatim>\<open>-c copy\<close>, the timestamp-normalisation directive
  \<^verbatim>\<open>-avoid_negative_ts make_zero\<close>, the output path. The trim limit is the Number
  \<open>d - 3\<close> rendered by Number-to-string conversion. The subtraction is exact for every
  binary64 duration between 3 and \<open>2 ^ 53\<close> seconds, and the duration 10 yields the argument
  \<^verbatim>\<open>7\<close>. The rendering is not a plain decimal string for every duration: see
  the counterexample below.
\<close>

theorem trim_limit_argument:
  assumes "ffmpegReady s" and "ffmpegRef s \<noteq> None" and "probe env = LoadedMetadata d"
    and "\<not> Number_le d (Finite 3)" and "writeFile_rejects env = None"
  shows "exec_arguments (engine_calls (snd (handleFile env f s))) =
      exec_arguments (engine_calls s) @
        [[''-i'', ''input.'' @ getFileExtension (name f),
          ''-t'', Number_toString (Number_subtract d (Finite 3)),
          ''-c'', ''copy'',
          ''-avoid_negative_ts'', ''make_zero'',
          ''output.'' @ getFileExtension (name f)]]
    \<and> (\<forall>x. round_binary64 x = x \<and> 3 < x \<and> x < 2 ^ 53 \<longrightarrow>
          Number_subtract (Finite x) (Finite 3) = Finite (x - 3))
    \<and> Number_toString (Number_subtract (Finite 10) (Finite 3)) = ''7''"
proof (intro conjI allI impI)
  show "exec_arguments (engine_calls (snd (handleFile env f s))) =
      exec_arguments (engine_calls s) @
        [[''-i'', ''input.'' @ getFileExtension (name f),
          ''-t'', Number_toString (Number_subtract d (Finite 3)),
          ''-c'', ''copy'',
          ''-avoid_negative_ts'', ''make_zero'',
          ''output.'' @ getFileExtension (name f)]]"
    using handleFile_exec_arguments [OF assms, of f] by (simp add: trim_arguments_def)
  show "Number_subtract (Finite x) (Finite 3) = Finite (x - 3)"
    if "round_binary64 x = x \<and> 3 < x \<and> x < 2 ^ 53" for x
    using that by (intro Number_subtract_three) simp_all
  show "Number_toString (Number_subtract (Finite 10) (Finite 3)) = ''7''"
    by (simp only: Number_subtract_10_3 Number_toString_7)
qed

theorem trim_limit_argument_witness:
  "ffmpegReady ready_app \<and> ffmpegRef ready_app \<noteq> None \<and>
   \<not> Number_le (Finite 10) (Finite 3) \<and>
   exec_arguments (engine_calls (snd (handleFile (engine_succeeds (Finite 10) []) clip_mp4 ready_app))) =
     [[''-i'', ''input.mp4'', ''-t'', ''7'', ''-c'', ''copy'',
       ''-avoid_negative_ts'', ''make_zero'', ''output.mp4'']]"
  using trim_limit_argument [of ready_app "engine_succeeds (Finite 10) []" "Finite 10" clip_mp4]
    ready_app_ready
  by (simp add: ready_app_engine engine_succeeds_def clip_mp4_def getFileExtension_examples)

text \<open>
  The claim as stated fails: a video of unbounded duration (\<^verbatim>\<open>video.duration\<close> is
  \<open>+\<infinity>\<close>) passes the check \<open>d > 3\<close>, and the time limit handed to the engine is the
  string \<^verbatim>\<open>Infinity\<close>, which is not a plain decimal number of seconds.
\<close>

theorem unbounded_duration_counterexample:
  "Number_gt PosInfinity (Finite 3) \<and>
   exec_arguments (engine_calls (snd (handleFile (engine_succeeds PosInfinity []) clip_mp4 ready_app))) =
     [[''-i'', ''input.mp4'', ''-t'', ''Infinity'', ''-c'', ''copy'',
       ''-avoid_negative_ts'', ''make_zero'', ''output.mp4'']] \<and>
   \<not> plain_decimal ''Infinity''"
  using handleFile_exec_arguments [of ready_app "engine_succeeds PosInfinity []" PosInfinity clip_mp4]
    ready_app_ready
  by (simp add: ready_app_engine engine_succeeds_def clip_mp4_def getFileExtension_examples
      trim_arguments_def Number_subtract_def plain_decimal_def is_digit_def)

text \<open>
  A finite duration whose trim limit is not rendered as a plain decimal either: the binary64
  value of \<^verbatim>\<open>3.0000001\<close>, for which \<open>d - 3\<close> is below \<open>1 / 10 ^ 6\<close> and is printed in
  exponent notation.
\<close>

lemma floor_rat_numeral: "\<lfloor>(numeral a :: rat) / numeral b\<rfloor> = numeral a div numeral b"
  using floor_divide_of_int_eq [of "numeral a" "numeral b", where ?'a = rat] by simp

lemma ceiling_rat_numeral:
  "\<lceil>(numeral a :: rat) / numeral b\<rceil> = - ((- numeral a) div numeral b)"
  using floor_divide_of_int_eq [of "- numeral a" "numeral b", where ?'a = rat]
  by (simp add: ceiling_def)

lemmas number_eval = floor_rat_numeral ceiling_rat_numeral
  Number_value_def round_binary64_def ulp_exponent_def floorlog2_def
  round_ties_even_def compute_bitlen floorlog10_def compute_floorlog candidates_def
  candidate_value_def closest_def Number_format_def digits.simps shortest.simps Let_def

lemma Number_subtract_tiny:
  "Number_subtract (Finite (6755399666235725 / 2251799813685248)) (Finite 3) =
     Finite (225179981 / 2251799813685248)"
  by (simp add: Number_subtract_def number_eval)

lemma Number_toString_tiny:
  "Number_toString (Finite (225179981 / 2251799813685248)) = ''9.999999983634211e-8''"
  by (simp add: number_eval)

lemma tiny_trim_limit:
  "Number_gt (Finite (6755399666235725 / 2251799813685248)) (Finite 3) \<and>
   exec_arguments (engine_calls (snd (handleFile
     (engine_succeeds (Finite (6755399666235725 / 2251799813685248)) []) clip_mp4 ready_app))) =
     [[''-i'', ''input.mp4'', ''-t'', ''9.999999983634211e-8'', ''-c'', ''copy'',
       ''-avoid_negative_ts'', ''make_zero'', ''output.mp4'']] \<and>
   \<not> plain_decimal ''9.999999983634211e-8''"
proof -
  have "exec_arguments (engine_calls (snd (handleFile
     (engine_succeeds (Finite (6755399666235725 / 2251799813685248)) []) clip_mp4 ready_app))) =
     [trim_arguments clip_mp4 (Finite (6755399666235725 / 2251799813685248))]"
    using handleFile_exec_arguments [of ready_app
        "engine_succeeds (Finite (6755399666235725 / 2251799813685248)) []"
        "Finite (6755399666235725 / 2251799813685248)" clip_mp4] ready_app_ready
    by (simp add: ready_app_engine engine_succeeds_def)
  moreover have "trim_arguments clip_mp4 (Finite (6755399666235725 / 2251799813685248)) =
     [''-i'', ''input.mp4'', ''-t'', ''9.999999983634211e-8'', ''-c'', ''copy'',
       ''-avoid_negative_ts'', ''make_zero'', ''output.mp4'']"
    unfolding trim_arguments_def Number_subtract_tiny Number_toString_tiny
    by (simp add: clip_mp4_def getFileExtension_examples)
  ultimately show ?thesis by (simp add: plain_decimal_def is_digit_def)
qed

section \<open>The ways a run ends\<close>

lemma accepted_video_simps [simp]:
  "vfile (accepted_video f d s) = f"
  "duration (accepted_video f d s) = d"
  "preview_url (accepted_video f d s) = Suc (next_url s)"
  by (simp_all add: accepted_video_def)

lemma accepted_state_simps [simp]:
  "currentVideo (accepted_state env f d s) = Some (accepted_video f d s)"
  "processedVideo (accepted_state env f d s) = None"
  "ffmpegReady (accepted_state env f d s) = ffmpegReady s"
  "ffmpegRef (accepted_state env f d s) = ffmpegRef s"
  "url_log (accepted_state env f d s) = url_log s @
     [CreateObjectURL (next_url s), RevokeObjectURL (next_url s), CreateObjectURL (Suc (next_url s))]"
  "next_url (accepted_state env f d s) = Suc (Suc (next_url s))"
  "workspace (accepted_state env f d s) = workspace s"
  "engine_calls (accepted_state env f d s) = engine_calls s"
  by (simp_all add: accepted_state_def workspace_def engine_calls_def)

lemma accepted_state_quiet:
  assumes "timeouts s = 0 \<or> (\<forall>p. timers_due env p = 0)"
  shows "timeouts (accepted_state env f d s) = timeouts s"
    and "progress_log (accepted_state env f d s) = progress_log s"
  using assms by (auto simp add: accepted_state_def await_at_eq)

lemma trimVideo_try_succeeds:
  assumes "ffmpegRef s \<noteq> None" and "writeFile_rejects env = None"
    and "exec_outcome env = ExecReturns (Some out)"
  shows "fst (trimVideo_try env vf s) = None"
  using assms unfolding trimVideo_try_def Let_def
  by (simp add: case_prod_beta writeFile_fst exec_fst readFile_fst deleteFile_fst
      case_option_const del: not_None_eq)

lemma handleFile_frame [simp]:
  "ffmpegReady (snd (handleFile env f s)) = ffmpegReady s"
  "ffmpegRef (snd (handleFile env f s)) = None \<longleftrightarrow> ffmpegRef s = None"
  unfolding handleFile_def getVideoDuration_def trimVideo_def trimVideo_try_def Let_def
  by (simp_all add: case_prod_beta clearMessages_def revokeObjectURL_def setTimeout_def
      split: option.splits sum.splits probe_result.splits)

lemma handleFile_succeeds:
  assumes "ffmpegReady s" and "ffmpegRef s \<noteq> None" and "probe env = LoadedMetadata d"
    and "\<not> Number_le d (Finite 3)" and "writeFile_rejects env = None"
    and "exec_outcome env = ExecReturns (Some out)"
  shows "fst (handleFile env f s) = TrimVideoCompleted"
proof -
  have "ffmpegRef (accepted_state env f d s) \<noteq> None" using assms(2) by simp
  then have "fst (trimVideo_try env (accepted_video f d s) (accepted_state env f d s)) = None"
    using assms(5,6) by (rule trimVideo_try_succeeds)
  then show ?thesis using assms(1,3,4) by (simp add: handleFile_accepted trimVideo_fst)
qed

lemma handleFile_exec_rejects:
  assumes "ffmpegReady s" and "ffmpegRef s \<noteq> None" and "probe env = LoadedMetadata d"
    and "\<not> Number_le d (Finite 3)" and "writeFile_rejects env = None"
    and "exec_outcome env = ExecRejects e"
  shows "fst (handleFile env f s) = TrimVideoCatch e"
    and "workspace (snd (handleFile env f s)) =
      (workspace s)(''input.'' @ getFileExtension (name f) \<mapsto> contents f)"
proof -
  have r: "ffmpegRef (accepted_state env f d s) \<noteq> None" using assms(2) by simp
  note t = trimVideo_try_exec_rejects [OF r assms(5,6), of "accepted_video f d s"]
  show "fst (handleFile env f s) = TrimVideoCatch e"
    using assms(1,3,4) t(1) by (simp add: handleFile_accepted trimVideo_fst)
  show "workspace (snd (handleFile env f s)) =
      (workspace s)(''input.'' @ getFileExtension (name f) \<mapsto> contents f)"
    using assms(1,3,4) t by (simp add: handleFile_accepted trimVideo_snd)
qed

lemma handleFile_reached:
  assumes "fst (handleFile env f s) = TrimVideoCompleted \<or> (\<exists>e. fst (handleFile env f s) = TrimVideoCatch e)"
  shows "ffmpegReady s \<and> (\<exists>d. probe env = LoadedMetadata d \<and> \<not> Number_le d (Finite 3))"
  using assms
  by (auto simp add: handleFile_def getVideoDuration_def createObjectURL_def Let_def
      split: if_splits probe_result.splits)

lemma handleFile_completed:
  assumes "fst (handleFile env f s) = TrimVideoCompleted"
  obtains d out where "ffmpegReady s" and "probe env = LoadedMetadata d" and "\<not> Number_le d (Finite 3)"
    and "processedVideo (snd (handleFile env f s)) =
        Some \<lparr>blob = \<lparr>blob_data = out, blob_type = getMimeType (name f)\<rparr>,
          url = Suc (Suc (next_url s)), originalName = name f\<rparr>"
    and "currentVideo (snd (handleFile env f s)) = Some (accepted_video f d s)"
    and "url_log (snd (handleFile env f s)) = url_log s @
        [CreateObjectURL (next_url s), RevokeObjectURL (next_url s),
         CreateObjectURL (Suc (next_url s)), CreateObjectURL (Suc (Suc (next_url s))),
         CreateObjectURL (Suc (Suc (Suc (next_url s))))]"
    and "next_url (snd (handleFile env f s)) = Suc (Suc (Suc (Suc (next_url s))))"
    and "workspace (snd (handleFile env f s)) =
        (workspace s)(''input.'' @ getFileExtension (name f) := None,
          ''output.'' @ getFileExtension (name f) := None)"
    and "percent (progress (snd (handleFile env f s))) = Finite 100"
    and "0 < timeouts (snd (handleFile env f s))"
proof -
  from assms obtain d where d: "ffmpegReady s" "probe env = LoadedMetadata d" "\<not> Number_le d (Finite 3)"
    using handleFile_reached [of env f s] by auto
  let ?vf = "accepted_video f d s" and ?s = "accepted_state env f d s"
  have h: "handleFile env f s = trimVideo env ?vf ?s" using d by (rule handleFile_accepted)
  with assms have t: "fst (trimVideo_try env ?vf ?s) = None"
    by (simp add: trimVideo_fst split: option.splits)
  note ok = trimVideo_try_success [OF t] trimVideo_try_success_workspace [OF t]
  from ok(1) obtain out where out: "processedVideo (snd (trimVideo_try env ?vf ?s)) =
        Some \<lparr>blob = \<lparr>blob_data = out, blob_type = getMimeType (name (vfile ?vf))\<rparr>,
          url = next_url ?s, originalName = name (vfile ?vf)\<rparr>" by blast
  show thesis
  proof (rule that [OF d, of out])
    show "processedVideo (snd (handleFile env f s)) =
        Some \<lparr>blob = \<lparr>blob_data = out, blob_type = getMimeType (name f)\<rparr>,
          url = Suc (Suc (next_url s)), originalName = name f\<rparr>"
      using out by (simp add: h trimVideo_snd t)
    show "currentVideo (snd (handleFile env f s)) = Some (accepted_video f d s)"
      using ok(4) by (simp add: h trimVideo_snd t)
    show "url_log (snd (handleFile env f s)) = url_log s @
        [CreateObjectURL (next_url s), RevokeObjectURL (next_url s),
         CreateObjectURL (Suc (next_url s)), CreateObjectURL (Suc (Suc (next_url s))),
         CreateObjectURL (Suc (Suc (Suc (next_url s))))]"
      using ok(2) by (simp add: h trimVideo_snd t)
    show "next_url (snd (handleFile env f s)) = Suc (Suc (Suc (Suc (next_url s))))"
      using ok(3) by (simp add: h trimVideo_snd t)
    show "workspace (snd (handleFile env f s)) =
        (workspace s)(''input.'' @ getFileExtension (name f) := None,
          ''output.'' @ getFileExtension (name f) := None)"
      using ok(7) by (simp add: h trimVideo_snd t)
    show "percent (progress (snd (handleFile env f s))) = Finite 100"
      using ok(5) by (simp add: h trimVideo_snd t)
    show "0 < timeouts (snd (handleFile env f s))"
      using ok(6) by (simp add: h trimVideo_snd t)
  qed
qed

lemma handleFile_completed_percents:
  assumes "fst (handleFile env f s) = TrimVideoCompleted"
    and "timeouts s = 0 \<or> (\<forall>p. timers_due env p = 0)"
  shows "run_percents s (snd (handleFile env f s)) =
        [Finite 10, Finite 20, Finite 30] @ map composite_percent (exec_progress env)
          @ [Finite 90, Finite 100]"
proof -
  from assms(1) obtain d where d: "ffmpegReady s" "probe env = LoadedMetadata d" "\<not> Number_le d (Finite 3)"
    using handleFile_reached [of env f s] by auto
  let ?vf = "accepted_video f d s" and ?s = "accepted_state env f d s"
  have h: "handleFile env f s = trimVideo env ?vf ?s" using d by (rule handleFile_accepted)
  with assms(1) have t: "fst (trimVideo_try env ?vf ?s) = None"
    by (simp add: trimVideo_fst split: option.splits)
  have i: "timeouts ?s = 0 \<or> (\<forall>p. timers_due env p = 0)"
    using assms(2) by (simp add: accepted_state_quiet)
  have "run_percents s (snd (handleFile env f s)) = run_percents ?s (snd (trimVideo_try env ?vf ?s))"
    using assms(2) by (simp add: h trimVideo_snd t run_percents_def accepted_state_quiet)
  then show ?thesis using trimVideo_try_success_percents [OF t i] by simp
qed

lemma handleFile_caught:
  assumes "fst (handleFile env f s) = TrimVideoCatch e"
  obtains d where "ffmpegReady s" and "probe env = LoadedMetadata d" and "\<not> Number_le d (Finite 3)"
    and "processedVideo (snd (handleFile env f s)) = None"
    and "currentVideo (snd (handleFile env f s)) = Some (accepted_video f d s)"
    and "url_log (snd (handleFile env f s)) = url_log s @
        [CreateObjectURL (next_url s), RevokeObjectURL (next_url s),
         CreateObjectURL (Suc (next_url s))]"
    and "next_url (snd (handleFile env f s)) = Suc (Suc (next_url s))"
    and "error (snd (handleFile env f s)) = ''Error processing video: '' @ template e"
    and "\<not> isProcessing (snd (handleFile env f s))"
proof -
  from assms obtain d where d: "ffmpegReady s" "probe env = LoadedMetadata d" "\<not> Number_le d (Finite 3)"
    using handleFile_reached [of env f s] by auto
  let ?vf = "accepted_video f d s" and ?s = "accepted_state env f d s"
  have h: "handleFile env f s = trimVideo env ?vf ?s" using d by (rule handleFile_accepted)
  with assms have t: "fst (trimVideo_try env ?vf ?s) = Some e"
    by (simp add: trimVideo_fst split: option.splits)
  from trimVideo_try_failure [OF t] have fr: "same_outside_engine ?s (snd (trimVideo_try env ?vf ?s))" .
  show thesis
    by (rule that [OF d]) (use fr in \<open>simp_all add: h trimVideo_snd t same_outside_engine_def\<close>)
qed

section \<open>Workspace cleanup\<close>

lemma engine_succeeds_simps [simp]:
  "probe (engine_succeeds d ps) = LoadedMetadata d"
  "writeFile_rejects (engine_succeeds d ps) = None"
  "exec_progress (engine_succeeds d ps) = ps"
  "exec_outcome (engine_succeeds d ps) = ExecReturns (Some [1, 2, 3])"
  "timers_due (engine_succeeds d ps) p = 0"
  by (simp_all add: engine_succeeds_def)

lemma timer_due_during_exec_simps [simp]:
  "probe (timer_due_during_exec d) = LoadedMetadata d"
  "writeFile_rejects (timer_due_during_exec d) = None"
  "exec_progress (timer_due_during_exec d) = []"
  "exec_outcome (timer_due_during_exec d) = ExecReturns (Some [1, 2, 3])"
  "timers_due (timer_due_during_exec d) p = (if p = AwaitExec 0 then 1 else 0)"
  by (simp_all add: timer_due_during_exec_def engine_succeeds_def)

lemma engine_fails_simps [simp]:
  "probe (engine_fails d) = LoadedMetadata d"
  "writeFile_rejects (engine_fails d) = None"
  "exec_progress (engine_fails d) = []"
  "exec_outcome (engine_fails d) =
     ExecRejects (EngineError ''RuntimeError: memory access out of bounds'')"
  "timers_due (engine_fails d) p = 0"
  by (simp_all add: engine_fails_def)

lemma ready_app_urls_issued: "urls_issued ready_app"
  by (simp add: urls_issued_def ready_app_engine)

text \<open>
  Claim C3 does not hold of the code. The two \<^verbatim>\<open>deleteFile\<close> calls stand inside the
  \<^verbatim>\<open>try\<close> block, after \<^verbatim>\<open>readFile\<close>; the \<^verbatim>\<open>finally\<close> clause only resets
  \<^verbatim>\<open>isProcessing\<close>. When the engine invocation rejects, for the file \<^verbatim>\<open>clip.mp4\<close> of
  duration 10 on a freshly loaded engine, the run ends in the \<^verbatim>\<open>catch\<close> clause of
  \<^verbatim>\<open>trimVideo\<close> and the staged entry \<^verbatim>\<open>input.mp4\<close>, absent before the run, is still in
  the workspace with the bytes of the file. The same holds when the invocation returns
  without an output file and \<^verbatim>\<open>readFile\<close> rejects (\<open>trimVideo_try_output_missing\<close>). On
  the path that completes, both entries are removed (\<open>workspace_cleared_on_success\<close> below).
\<close>

theorem staged_input_left_after_engine_error:
  "fst (handleFile (engine_fails (Finite 10)) clip_mp4 ready_app) =
     TrimVideoCatch (EngineError ''RuntimeError: memory access out of bounds'') \<and>
   workspace ready_app ''input.mp4'' = None \<and>
   workspace (snd (handleFile (engine_fails (Finite 10)) clip_mp4 ready_app)) ''input.mp4'' =
     Some (contents clip_mp4)"
  using handleFile_exec_rejects [of ready_app "engine_fails (Finite 10)" "Finite 10"
      "EngineError ''RuntimeError: memory access out of bounds''" clip_mp4]
    ready_app_ready
  by (simp add: ready_app_engine clip_mp4_def getFileExtension_examples)

lemma workspace_cleared_on_success:
  assumes "fst (handleFile env f s) = TrimVideoCompleted"
  shows "workspace (snd (handleFile env f s)) (''input.'' @ getFileExtension (name f)) = None"
    and "workspace (snd (handleFile env f s)) (''output.'' @ getFileExtension (name f)) = None"
  using assms by (rule handleFile_completed, simp)+

section \<open>Progress\<close>

lemma unit_fraction_Finite:
  assumes "unit_fraction p"
  obtains x where "p = Finite x" and "0 \<le> x" and "x \<le> 1"
  using assms by (cases p) simp_all

lemma composite_percent_range:
  assumes "unit_fraction p"
  shows "Number_le (Finite 30) (composite_percent p)" and "Number_le (composite_percent p) (Finite 90)"
proof -
  from assms obtain x where x: "p = Finite x" "0 \<le> x" "x \<le> 1" by (rule unit_fraction_Finite)
  note c = composite_percent_unit [OF x(2,3)]
  show "Number_le (Finite 30) (composite_percent p)" using c by (simp add: x(1))
  show "Number_le (composite_percent p) (Finite 90)" using c by (simp add: x(1))
qed

lemma composite_percent_mono:
  assumes "unit_fraction p" and "unit_fraction q" and "Number_le p q"
  shows "Number_le (composite_percent p) (composite_percent q)"
proof -
  from assms(1) obtain x where x: "p = Finite x" "0 \<le> x" "x \<le> 1" by (rule unit_fraction_Finite)
  from assms(2) obtain y where y: "q = Finite y" "0 \<le> y" "y \<le> 1" by (rule unit_fraction_Finite)
  have "x \<le> y" using assms(3) by (simp add: x(1) y(1))
  then have "composite_value x \<le> composite_value y" using x(2) y(3) by (intro composite_value_mono)
  then show ?thesis
    by (simp add: x(1) y(1) composite_percent_unit(1) [OF x(2,3)] composite_percent_unit(1) [OF y(2,3)])
qed

lemma composite_percent_sorted:
  assumes "list_all unit_fraction ps" and "sorted_wrt Number_le ps"
  shows "sorted_wrt Number_le (map composite_percent ps)"
  using assms
  by (induction ps) (auto simp add: list_all_iff intro: composite_percent_mono)

lemma Number_le_trans: "Number_le a b \<Longrightarrow> Number_le b c \<Longrightarrow> Number_le a c"
  by (cases a; cases b; cases c) simp_all

lemma run_sorted:
  assumes "list_all unit_fraction ps" and "sorted_wrt Number_le ps"
    and "xs \<in>
     {[Finite 10], [Finite 10, Finite 20],
      [Finite 10, Finite 20, Finite 30] @ map composite_percent ps,
      [Finite 10, Finite 20, Finite 30] @ map composite_percent ps @ [Finite 90],
      [Finite 10, Finite 20, Finite 30] @ map composite_percent ps @ [Finite 90, Finite 100]}"
  shows "sorted_wrt Number_le xs"
proof -
  have m: "sorted_wrt Number_le (map composite_percent ps)"
    using assms(1,2) by (rule composite_percent_sorted)
  have lo: "Number_le (Finite a) (composite_percent p)" if "p \<in> set ps" and "a \<le> 30" for p a
  proof -
    have "Number_le (Finite a) (Finite 30)" using that(2) by simp
    moreover have "Number_le (Finite 30) (composite_percent p)"
      using assms(1) that(1) by (intro composite_percent_range) (simp add: list_all_iff)
    ultimately show ?thesis by (rule Number_le_trans)
  qed
  have hi: "Number_le (composite_percent p) (Finite b)" if "p \<in> set ps" and "90 \<le> b" for p b
  proof -
    have "Number_le (composite_percent p) (Finite 90)"
      using assms(1) that(1) by (intro composite_percent_range) (simp add: list_all_iff)
    moreover have "Number_le (Finite 90) (Finite b)" using that(2) by simp
    ultimately show ?thesis by (rule Number_le_trans)
  qed
  from assms(3) show ?thesis
    by (auto simp add: sorted_wrt_append m lo hi)
qed

lemma handleFile_run_percents:
  assumes "timeouts s = 0 \<or> (\<forall>p. timers_due env p = 0)"
  shows "run_percents s (snd (handleFile env f s)) \<in>
     {[], [Finite 10], [Finite 10, Finite 20],
      [Finite 10, Finite 20, Finite 30] @ map composite_percent (exec_progress env),
      [Finite 10, Finite 20, Finite 30] @ map composite_percent (exec_progress env) @ [Finite 90],
      [Finite 10, Finite 20, Finite 30] @ map composite_percent (exec_progress env)
        @ [Finite 90, Finite 100]}"
proof (cases "ffmpegReady s \<and> (\<exists>d. probe env = LoadedMetadata d \<and> \<not> Number_le d (Finite 3))")
  case True
  then obtain d where d: "ffmpegReady s" "probe env = LoadedMetadata d" "\<not> Number_le d (Finite 3)"
    by blast
  let ?vf = "accepted_video f d s" and ?s = "accepted_state env f d s"
  have i: "timeouts ?s = 0 \<or> (\<forall>p. timers_due env p = 0)"
    using assms by (simp add: accepted_state_quiet)
  have "run_percents s (snd (handleFile env f s)) = run_percents ?s (snd (trimVideo_try env ?vf ?s))"
    using assms
    by (simp add: handleFile_accepted [OF d] trimVideo_snd run_percents_def accepted_state_quiet
        split: option.splits)
  then show ?thesis using trimVideo_try_percents [OF i, of ?vf] by simp
next
  case False
  then have "run_percents s (snd (handleFile env f s)) = []"
    using assms
    by (auto simp add: handleFile_def getVideoDuration_def createObjectURL_def revokeObjectURL_def
        clearMessages_def run_percents_def await_at_quiet Let_def split: probe_result.splits)
  then show ?thesis by simp
qed

lemma exec_without_progress:
  assumes "ffmpegRef s \<noteq> None" and "exec_progress env = []"
  shows "map percent (progress_log (snd (exec env args s))) =
     map percent (progress_log s) @
       replicate (min (timers_due env (AwaitExec 0)) (timeouts s)) (Finite 0)"
    and "timeouts (snd (exec env args s)) = timeouts s - timers_due env (AwaitExec 0)"
  using assms
  by (auto simp add: exec_def Let_def await_at_percents await_at_timeouts
      split: option.splits exec_result.splits)

lemma timer_due_during_exec_percents:
  assumes "ffmpegReady s" and "ffmpegRef s \<noteq> None" and "0 < timeouts s"
    and "\<not> Number_le d (Finite 3)"
  shows "fst (handleFile (timer_due_during_exec d) f s) = TrimVideoCompleted"
    and "run_percents s (snd (handleFile (timer_due_during_exec d) f s)) =
      [Finite 10, Finite 20, Finite 30, Finite 0, Finite 90, Finite 100]"
proof -
  let ?env = "timer_due_during_exec d"
  let ?vf = "accepted_video f d s" and ?s = "accepted_state ?env f d s"
  show c: "fst (handleFile ?env f s) = TrimVideoCompleted"
    using assms by (intro handleFile_succeeds [where d = d and out = "[1, 2, 3]"]) simp_all
  have h: "handleFile ?env f s = trimVideo ?env ?vf ?s"
    using assms(1,4) by (intro handleFile_accepted) simp_all
  with c have t: "fst (trimVideo_try ?env ?vf ?s) = None"
    by (simp add: trimVideo_fst split: option.splits)
  have r: "ffmpegRef ?s \<noteq> None" and i: "0 < timeouts ?s" and l: "progress_log ?s = progress_log s"
    using assms(2,3) by (simp_all add: accepted_state_def await_at_idle)
  have "run_percents ?s (snd (trimVideo_try ?env ?vf ?s)) =
      [Finite 10, Finite 20, Finite 30, Finite 0, Finite 90, Finite 100]"
    using t r i unfolding trimVideo_try_def Let_def
    by (simp add: case_prod_beta setTimeout_def run_percents_def exec_without_progress
        await_at_percents await_at_timeouts split: option.splits sum.splits)
  then show "run_percents s (snd (handleFile ?env f s)) =
      [Finite 10, Finite 20, Finite 30, Finite 0, Finite 90, Finite 100]"
    by (simp add: h trimVideo_snd t run_percents_def l)
qed

lemma ready_app_idle: "timeouts ready_app = 0"
  by (simp add: ready_app_def loading_app_def initializeFFmpeg_settled_def initializeFFmpeg_start_def
      setProgress_def initial_app_def)

text \<open>
  Claim C5, as the code has it. The handler neither clamps the fraction the engine reports nor
  compares it with the percentage already shown, and the timer that a completed run sets to
  reset the display is never cleared, so that its callback may store 0 while a later run is
  suspended. The values the percentage takes during one call of \<^verbatim>\<open>handleFile\<close>, from
  the first one stored on and whoever stores them, are non-decreasing provided the fractions
  the engine reports lie between 0 and 1 and are themselves non-decreasing, and no timer of an
  earlier run interferes: none is pending when the call starts, or none comes due while the
  call is suspended. This holds however the call ends. When the run completes, the
  percentage is exactly 100 at its end, whatever the fractions and the timers.
\<close>

theorem progress_monotone_for_monotone_fractions:
  "(list_all unit_fraction (exec_progress env) \<and> sorted_wrt Number_le (exec_progress env) \<and>
    (timeouts s = 0 \<or> (\<forall>p. timers_due env p = 0)) \<longrightarrow>
      sorted_wrt Number_le (run_percents s (snd (handleFile env f s)))) \<and>
   (fst (handleFile env f s) = TrimVideoCompleted \<longrightarrow>
      percent (progress (snd (handleFile env f s))) = Finite 100)"
proof (intro conjI impI)
  assume a: "list_all unit_fraction (exec_progress env) \<and>
    sorted_wrt Number_le (exec_progress env) \<and>
    (timeouts s = 0 \<or> (\<forall>p. timers_due env p = 0))"
  show "sorted_wrt Number_le (run_percents s (snd (handleFile env f s)))"
  proof (cases "run_percents s (snd (handleFile env f s)) = []")
    case True
    then show ?thesis by simp
  next
    case False
    from a have i: "timeouts s = 0 \<or> (\<forall>p. timers_due env p = 0)"
      and u: "list_all unit_fraction (exec_progress env)"
      and m: "sorted_wrt Number_le (exec_progress env)" by simp_all
    from handleFile_run_percents [OF i, of f] False
    have "run_percents s (snd (handleFile env f s)) \<in>
     {[Finite 10], [Finite 10, Finite 20],
      [Finite 10, Finite 20, Finite 30] @ map composite_percent (exec_progress env),
      [Finite 10, Finite 20, Finite 30] @ map composite_percent (exec_progress env) @ [Finite 90],
      [Finite 10, Finite 20, Finite 30] @ map composite_percent (exec_progress env)
        @ [Finite 90, Finite 100]}"
      by blast
    with u m show ?thesis by (rule run_sorted)
  qed
next
  assume "fst (handleFile env f s) = TrimVideoCompleted"
  then show "percent (progress (snd (handleFile env f s))) = Finite 100"
    by (rule handleFile_completed)
qed

text \<open>
  A run from the freshly loaded state, where no timer is pending; and a run that starts while
  the timer of the run before is pending and ends before that timer comes due.
\<close>

theorem progress_monotone_for_monotone_fractions_witness:
  "list_all unit_fraction [Finite 0, Finite 1] \<and> sorted_wrt Number_le [Finite 0, Finite 1] \<and>
   timeouts ready_app = 0 \<and>
   fst (handleFile (engine_succeeds (Finite 10) [Finite 0, Finite 1]) clip_mp4 ready_app) =
     TrimVideoCompleted \<and>
   sorted_wrt Number_le
     (run_percents ready_app
       (snd (handleFile (engine_succeeds (Finite 10) [Finite 0, Finite 1]) clip_mp4 ready_app))) \<and>
   percent (progress
     (snd (handleFile (engine_succeeds (Finite 10) [Finite 0, Finite 1]) clip_mp4 ready_app))) =
     Finite 100 \<and>
   0 < timeouts (snd (handleFile (engine_succeeds (Finite 10) []) a_mov ready_app)) \<and>
   (\<forall>p. timers_due (engine_succeeds (Finite 10) [Finite 0, Finite 1]) p = 0) \<and>
   sorted_wrt Number_le
     (run_percents (snd (handleFile (engine_succeeds (Finite 10) []) a_mov ready_app))
       (snd (handleFile (engine_succeeds (Finite 10) [Finite 0, Finite 1]) b_webm
         (snd (handleFile (engine_succeeds (Finite 10) []) a_mov ready_app)))))"
proof -
  have "fst (handleFile (engine_succeeds (Finite 10) []) a_mov ready_app) = TrimVideoCompleted"
    using handleFile_succeeds [of ready_app "engine_succeeds (Finite 10) []" "Finite 10"
        "[1, 2, 3]" a_mov] ready_app_ready
    by (simp add: ready_app_engine)
  then have "0 < timeouts (snd (handleFile (engine_succeeds (Finite 10) []) a_mov ready_app))"
    by (rule handleFile_completed)
  then show ?thesis
    using progress_monotone_for_monotone_fractions
        [of "engine_succeeds (Finite 10) [Finite 0, Finite 1]" ready_app clip_mp4]
      progress_monotone_for_monotone_fractions
        [of "engine_succeeds (Finite 10) [Finite 0, Finite 1]"
          "snd (handleFile (engine_succeeds (Finite 10) []) a_mov ready_app)" b_webm]
      handleFile_succeeds [of ready_app "engine_succeeds (Finite 10) [Finite 0, Finite 1]" "Finite 10"
        "[1, 2, 3]" clip_mp4] ready_app_ready
    by (simp add: ready_app_engine ready_app_idle)
qed

text \<open>
  The claim as stated fails, in two ways. The engine reports the fractions 1 and then 0, both
  between 0 and 1, the run completes, and the percentage goes 10, 20, 30, 90, 30, 90, 100: it
  drops from 90 to 30. And with no fraction reported at all: a run on \<^verbatim>\<open>a.mov\<close> completes
  and sets its timer; the next run, on \<^verbatim>\<open>b.webm\<close>, starts before the timer has come due;
  the timer comes due while \<^verbatim>\<open>exec\<close> is awaited, and the percentage goes 10, 20, 30, 0,
  90, 100: it drops from 30 to 0.
\<close>

theorem progress_decreases_counterexample:
  "list_all unit_fraction [Finite 1, Finite 0] \<and>
   fst (handleFile (engine_succeeds (Finite 10) [Finite 1, Finite 0]) clip_mp4 ready_app) =
     TrimVideoCompleted \<and>
   run_percents ready_app
     (snd (handleFile (engine_succeeds (Finite 10) [Finite 1, Finite 0]) clip_mp4 ready_app)) =
     [Finite 10, Finite 20, Finite 30, Finite 90, Finite 30, Finite 90, Finite 100] \<and>
   \<not> Number_le (Finite 90) (Finite 30) \<and>
   fst (handleFile (engine_succeeds (Finite 10) []) a_mov ready_app) = TrimVideoCompleted \<and>
   exec_progress (timer_due_during_exec (Finite 10)) = [] \<and>
   fst (handleFile (timer_due_during_exec (Finite 10)) b_webm
     (snd (handleFile (engine_succeeds (Finite 10) []) a_mov ready_app))) = TrimVideoCompleted \<and>
   run_percents (snd (handleFile (engine_succeeds (Finite 10) []) a_mov ready_app))
     (snd (handleFile (timer_due_during_exec (Finite 10)) b_webm
       (snd (handleFile (engine_succeeds (Finite 10) []) a_mov ready_app)))) =
     [Finite 10, Finite 20, Finite 30, Finite 0, Finite 90, Finite 100] \<and>
   \<not> Number_le (Finite 30) (Finite 0)"
proof -
  let ?env = "engine_succeeds (Finite 10) [Finite 1, Finite 0]"
  let ?s1 = "snd (handleFile (engine_succeeds (Finite 10) []) a_mov ready_app)"
  have c: "fst (handleFile ?env clip_mp4 ready_app) = TrimVideoCompleted"
    using handleFile_succeeds [of ready_app ?env "Finite 10" "[1, 2, 3]" clip_mp4] ready_app_ready
    by (simp add: ready_app_engine)
  have "timeouts ready_app = 0 \<or> (\<forall>p. timers_due ?env p = 0)" by simp
  with c have "run_percents ready_app (snd (handleFile ?env clip_mp4 ready_app)) =
     [Finite 10, Finite 20, Finite 30] @ map composite_percent (exec_progress ?env)
       @ [Finite 90, Finite 100]"
    by (rule handleFile_completed_percents)
  then have p: "run_percents ready_app (snd (handleFile ?env clip_mp4 ready_app)) =
     [Finite 10, Finite 20, Finite 30, Finite 90, Finite 30, Finite 90, Finite 100]"
    by (simp add: composite_percent_one composite_percent_zero)
  have c1: "fst (handleFile (engine_succeeds (Finite 10) []) a_mov ready_app) = TrimVideoCompleted"
    using handleFile_succeeds [of ready_app "engine_succeeds (Finite 10) []" "Finite 10"
        "[1, 2, 3]" a_mov] ready_app_ready
    by (simp add: ready_app_engine)
  have pending: "0 < timeouts ?s1" by (rule handleFile_completed [OF c1])
  have ready: "ffmpegReady ?s1" "ffmpegRef ?s1 \<noteq> None"
    using ready_app_ready by (simp_all add: ready_app_engine)
  note t = timer_due_during_exec_percents [OF ready pending, of "Finite 10" b_webm]
  show ?thesis using c p c1 t by simp
qed

section \<open>Object URLs\<close>

lemma urls_issued_fresh:
  assumes "urls_issued s" and "next_url s \<le> u"
  shows "revocations s u = 0" and "CreateObjectURL u \<notin> set (url_log s)"
proof -
  have a: "url_of e < next_url s" if "e \<in> set (url_log s)" for e
    using assms(1) that by (simp add: urls_issued_def list_all_iff)
  have "RevokeObjectURL u \<notin> set (url_log s)" using a [of "RevokeObjectURL u"] assms(2) by auto
  then show "revocations s u = 0" by (auto simp add: revocations_def filter_empty_conv)
  show "CreateObjectURL u \<notin> set (url_log s)" using a [of "CreateObjectURL u"] assms(2) by auto
qed

lemma revocations_extended:
  assumes "url_log s' = url_log s @ es"
  shows "revocations s' u = revocations s u + length (filter (\<lambda>e. e = RevokeObjectURL u) es)"
  using assms by (simp add: revocations_def)

lemma handleFile_accepted_urls:
  assumes "ffmpegReady s" and "probe env = LoadedMetadata d" and "\<not> Number_le d (Finite 3)"
  shows "currentVideo (snd (handleFile env f s)) = Some (accepted_video f d s)"
    and "revocations (snd (handleFile env f s)) u = revocations s u + (if u = next_url s then 1 else 0)"
proof -
  let ?vf = "accepted_video f d s" and ?s = "accepted_state env f d s"
  have h: "handleFile env f s = trimVideo env ?vf ?s" using assms by (rule handleFile_accepted)
  have a: "revocations ?s u = revocations s u + (if u = next_url s then 1 else 0)"
    by (simp add: revocations_def)
  show "currentVideo (snd (handleFile env f s)) = Some (accepted_video f d s)"
  proof (cases "fst (trimVideo_try env ?vf ?s)")
    case None
    then show ?thesis using trimVideo_try_success(4) [OF None] by (simp add: h trimVideo_snd)
  next
    case (Some e)
    then show ?thesis using trimVideo_try_failure [OF Some]
      by (simp add: h trimVideo_snd same_outside_engine_def)
  qed
  show "revocations (snd (handleFile env f s)) u = revocations s u + (if u = next_url s then 1 else 0)"
  proof (cases "fst (trimVideo_try env ?vf ?s)")
    case None
    have "revocations (snd (trimVideo_try env ?vf ?s)) u = revocations ?s u"
      using trimVideo_try_success(2) [OF None] by (simp add: revocations_def)
    then show ?thesis using a by (simp add: h trimVideo_snd None revocations_def)
  next
    case (Some e)
    have "revocations (snd (trimVideo_try env ?vf ?s)) u = revocations ?s u"
      using trimVideo_try_failure [OF Some] by (simp add: revocations_def same_outside_engine_def)
    then show ?thesis using a by (simp add: h trimVideo_snd Some revocations_def)
  qed
qed

lemma two_completed_runs:
  assumes "urls_issued s0"
    and "fst (handleFile env1 f1 s0) = TrimVideoCompleted"
    and "fst (handleFile env2 f2 (snd (handleFile env1 f1 s0))) = TrimVideoCompleted"
  shows "map_option url (processedVideo (snd (handleFile env1 f1 s0))) = Some (next_url s0 + 2)"
    and "map_option url (processedVideo (snd (handleFile env2 f2 (snd (handleFile env1 f1 s0))))) =
      Some (next_url s0 + 6)"
    and "revocations (snd (handleFile env2 f2 (snd (handleFile env1 f1 s0)))) (next_url s0 + 2) = 0"
    and "CreateObjectURL (next_url s0 + 2) \<in>
      set (url_log (snd (handleFile env2 f2 (snd (handleFile env1 f1 s0)))))"
proof -
  let ?s1 = "snd (handleFile env1 f1 s0)"
  let ?s2 = "snd (handleFile env2 f2 ?s1)"
  from assms(2) obtain d1 out1 where r1:
    "processedVideo ?s1 = Some \<lparr>blob = \<lparr>blob_data = out1, blob_type = getMimeType (name f1)\<rparr>,
          url = Suc (Suc (next_url s0)), originalName = name f1\<rparr>"
    "url_log ?s1 = url_log s0 @
        [CreateObjectURL (next_url s0), RevokeObjectURL (next_url s0),
         CreateObjectURL (Suc (next_url s0)), CreateObjectURL (Suc (Suc (next_url s0))),
         CreateObjectURL (Suc (Suc (Suc (next_url s0))))]"
    "next_url ?s1 = Suc (Suc (Suc (Suc (next_url s0))))"
    by (rule handleFile_completed)
  from assms(3) obtain d2 out2 where r2:
    "processedVideo ?s2 = Some \<lparr>blob = \<lparr>blob_data = out2, blob_type = getMimeType (name f2)\<rparr>,
          url = Suc (Suc (next_url ?s1)), originalName = name f2\<rparr>"
    "url_log ?s2 = url_log ?s1 @
        [CreateObjectURL (next_url ?s1), RevokeObjectURL (next_url ?s1),
         CreateObjectURL (Suc (next_url ?s1)), CreateObjectURL (Suc (Suc (next_url ?s1))),
         CreateObjectURL (Suc (Suc (Suc (next_url ?s1))))]"
    by (rule handleFile_completed)
  show "map_option url (processedVideo ?s1) = Some (next_url s0 + 2)" by (simp add: r1(1))
  show "map_option url (processedVideo ?s2) = Some (next_url s0 + 6)" by (simp add: r2(1) r1(3))
  have "revocations s0 (next_url s0 + 2) = 0" using urls_issued_fresh(1) [OF assms(1)] by simp
  then show "revocations ?s2 (next_url s0 + 2) = 0"
    by (simp add: revocations_def r2(2) r1(2,3))
  show "CreateObjectURL (next_url s0 + 2) \<in> set (url_log ?s2)"
    by (simp add: r2(2) r1(2))
qed

text \<open>
  Claim C4, as the code has it. The only call of \<^verbatim>\<open>URL.revokeObjectURL\<close> is the one on the
  object URL of the metadata probe. Across two completed runs in a row, the second result has
  an object URL different from the first, and the object URL of the first result has not been
  revoked at all (zero times, not once): it is still live when the second result exists. The
  previous result itself is dropped from the state when the second intake begins
  (\<^verbatim>\<open>setProcessedVideo(null)\<close>, see C6).
\<close>

theorem superseded_result_handle_never_revoked:
  assumes "urls_issued s0"
    and "fst (handleFile env1 f1 s0) = TrimVideoCompleted"
    and "fst (handleFile env2 f2 (snd (handleFile env1 f1 s0))) = TrimVideoCompleted"
  shows "\<exists>r1 r2.
      processedVideo (snd (handleFile env1 f1 s0)) = Some r1 \<and>
      processedVideo (snd (handleFile env2 f2 (snd (handleFile env1 f1 s0)))) = Some r2 \<and>
      url r2 \<noteq> url r1 \<and>
      revocations (snd (handleFile env2 f2 (snd (handleFile env1 f1 s0)))) (url r1) = 0 \<and>
      live (snd (handleFile env2 f2 (snd (handleFile env1 f1 s0)))) (url r1)"
  using two_completed_runs [OF assms] by (auto simp add: live_def)

lemma ready_after_run [simp]:
  "ffmpegReady (snd (handleFile env f ready_app))"
  "ffmpegRef (snd (handleFile env f ready_app)) \<noteq> None"
  using ready_app_ready by (simp_all add: ready_app_engine)

lemma scenario_D:
  "fst (handleFile (engine_succeeds (Finite 10) []) a_mov ready_app) = TrimVideoCompleted"
  "fst (handleFile (engine_succeeds (Finite 10) []) b_webm
     (snd (handleFile (engine_succeeds (Finite 10) []) a_mov ready_app))) = TrimVideoCompleted"
  using ready_app_ready
  by (simp_all add: handleFile_succeeds [where d = "Finite 10" and out = "[1, 2, 3]"] ready_app_engine)

theorem superseded_result_handle_never_revoked_witness:
  "urls_issued ready_app \<and>
   fst (handleFile (engine_succeeds (Finite 10) []) a_mov ready_app) = TrimVideoCompleted \<and>
   fst (handleFile (engine_succeeds (Finite 10) []) b_webm
     (snd (handleFile (engine_succeeds (Finite 10) []) a_mov ready_app))) = TrimVideoCompleted \<and>
   (\<exists>r1 r2.
      processedVideo (snd (handleFile (engine_succeeds (Finite 10) []) a_mov ready_app)) = Some r1 \<and>
      processedVideo (snd (handleFile (engine_succeeds (Finite 10) []) b_webm
        (snd (handleFile (engine_succeeds (Finite 10) []) a_mov ready_app)))) = Some r2 \<and>
      url r2 \<noteq> url r1 \<and>
      live (snd (handleFile (engine_succeeds (Finite 10) []) b_webm
        (snd (handleFile (engine_succeeds (Finite 10) []) a_mov ready_app)))) (url r1))"
  using superseded_result_handle_never_revoked [of ready_app "engine_succeeds (Finite 10) []" a_mov
      "engine_succeeds (Finite 10) []" b_webm] ready_app_urls_issued scenario_D
  by blast

text \<open>
  The claim as stated fails: after two completed runs on \<^verbatim>\<open>a.mov\<close> and \<^verbatim>\<open>b.webm\<close>,
  the first result had object URL 2, the second has object URL 6, and the number of
  revocations of URL 2 is not one.
\<close>

theorem result_handle_not_revoked_counterexample:
  "map_option url (processedVideo (snd (handleFile (engine_succeeds (Finite 10) []) a_mov ready_app))) =
     Some 2 \<and>
   map_option url (processedVideo (snd (handleFile (engine_succeeds (Finite 10) []) b_webm
     (snd (handleFile (engine_succeeds (Finite 10) []) a_mov ready_app))))) = Some 6 \<and>
   revocations (snd (handleFile (engine_succeeds (Finite 10) []) b_webm
     (snd (handleFile (engine_succeeds (Finite 10) []) a_mov ready_app)))) 2 \<noteq> 1"
  using two_completed_runs [OF ready_app_urls_issued scenario_D]
  by (simp add: ready_app_engine numeral_2_eq_2)

text \<open>
  Claim C6, as the code has it. \<^verbatim>\<open>handleFile\<close> clears the previous result before it
  probes the new file, so after a run that ends in the \<^verbatim>\<open>catch\<close> clause of
  \<^verbatim>\<open>trimVideo\<close> (RunFailure) no result is held. The run revokes none of the object URLs
  issued before it, so the access handle of the previous result stays valid.
\<close>

theorem failed_run_drops_prior_result:
  assumes "fst (handleFile env f s) = TrimVideoCatch e"
  shows "processedVideo (snd (handleFile env f s)) = None \<and>
    (\<forall>u < next_url s. revocations (snd (handleFile env f s)) u = revocations s u)"
proof -
  from assms obtain d where d: "ffmpegReady s" "probe env = LoadedMetadata d" "\<not> Number_le d (Finite 3)"
    and "processedVideo (snd (handleFile env f s)) = None"
    by (rule handleFile_caught)
  then show ?thesis using handleFile_accepted_urls(2) [OF d, of f] by simp
qed

lemma failing_second_run:
  "fst (handleFile (engine_fails (Finite 10)) b_webm
     (snd (handleFile (engine_succeeds (Finite 10) []) a_mov ready_app))) =
   TrimVideoCatch (EngineError ''RuntimeError: memory access out of bounds'')"
  by (rule handleFile_exec_rejects [where d = "Finite 10"])
    (simp_all add: ready_app_ready ready_app_engine)

theorem failed_run_drops_prior_result_witness:
  "fst (handleFile (engine_fails (Finite 10)) b_webm
     (snd (handleFile (engine_succeeds (Finite 10) []) a_mov ready_app))) =
     TrimVideoCatch (EngineError ''RuntimeError: memory access out of bounds'') \<and>
   processedVideo (snd (handleFile (engine_fails (Finite 10)) b_webm
     (snd (handleFile (engine_succeeds (Finite 10) []) a_mov ready_app)))) = None \<and>
   (2::nat) < next_url (snd (handleFile (engine_succeeds (Finite 10) []) a_mov ready_app)) \<and>
   revocations (snd (handleFile (engine_fails (Finite 10)) b_webm
     (snd (handleFile (engine_succeeds (Finite 10) []) a_mov ready_app)))) 2 =
   revocations (snd (handleFile (engine_succeeds (Finite 10) []) a_mov ready_app)) 2"
proof -
  have n: "next_url (snd (handleFile (engine_succeeds (Finite 10) []) a_mov ready_app)) = 4"
    by (rule handleFile_completed [OF scenario_D(1)]) (simp add: ready_app_engine)
  show ?thesis
    using failed_run_drops_prior_result [OF failing_second_run] failing_second_run n by simp
qed

text \<open>
  The claim as stated fails: a completed run on \<^verbatim>\<open>a.mov\<close> publishes a result; the next
  run, on \<^verbatim>\<open>b.webm\<close>, fails in the engine invocation, and afterwards no result is held.
\<close>

theorem prior_result_cleared_counterexample:
  "map_option url (processedVideo (snd (handleFile (engine_succeeds (Finite 10) []) a_mov ready_app))) =
     Some 2 \<and>
   fst (handleFile (engine_fails (Finite 10)) b_webm
     (snd (handleFile (engine_succeeds (Finite 10) []) a_mov ready_app))) =
     TrimVideoCatch (EngineError ''RuntimeError: memory access out of bounds'') \<and>
   processedVideo (snd (handleFile (engine_fails (Finite 10)) b_webm
     (snd (handleFile (engine_succeeds (Finite 10) []) a_mov ready_app)))) = None"
proof -
  have "processedVideo (snd (handleFile (engine_fails (Finite 10)) b_webm
     (snd (handleFile (engine_succeeds (Finite 10) []) a_mov ready_app)))) = None"
    by (rule handleFile_caught [OF failing_second_run])
  then show ?thesis
    using two_completed_runs(1) [OF ready_app_urls_issued scenario_D] failing_second_run
    by (simp add: ready_app_engine numeral_2_eq_2)
qed

text \<open>
  Claim C8, as the code has it. When an accepted selection replaces the current video, the
  new record holds the new file and a fresh preview URL, and the preview URL of the replaced
  video is not revoked: its number of revocations is what it was before.
\<close>

theorem superseded_preview_handle_not_released:
  assumes "currentVideo s = Some v" and "preview_url v < next_url s"
    and "ffmpegReady s" and "probe env = LoadedMetadata d" and "\<not> Number_le d (Finite 3)"
  shows "\<exists>v'. currentVideo (snd (handleFile env f s)) = Some v' \<and> vfile v' = f \<and>
      preview_url v' \<noteq> preview_url v \<and>
      revocations (snd (handleFile env f s)) (preview_url v) = revocations s (preview_url v)"
  using handleFile_accepted_urls [OF assms(3-5), of f] assms(2) by simp

lemma first_selection:
  "currentVideo (snd (handleFile (engine_succeeds (Finite 10) []) a_mov ready_app)) =
     Some \<lparr>vfile = a_mov, duration = Finite 10, preview_url = 1\<rparr>"
  "next_url (snd (handleFile (engine_succeeds (Finite 10) []) a_mov ready_app)) = 4"
  "revocations (snd (handleFile (engine_succeeds (Finite 10) []) a_mov ready_app)) 1 = 0"
proof -
  show "currentVideo (snd (handleFile (engine_succeeds (Finite 10) []) a_mov ready_app)) =
     Some \<lparr>vfile = a_mov, duration = Finite 10, preview_url = 1\<rparr>"
    using handleFile_accepted_urls(1) [of ready_app "engine_succeeds (Finite 10) []" "Finite 10" a_mov]
      ready_app_ready by (simp add: accepted_video_def ready_app_engine)
  show "next_url (snd (handleFile (engine_succeeds (Finite 10) []) a_mov ready_app)) = 4"
    by (rule handleFile_completed [OF scenario_D(1)]) (simp add: ready_app_engine)
  show "revocations (snd (handleFile (engine_succeeds (Finite 10) []) a_mov ready_app)) 1 = 0"
    using handleFile_accepted_urls(2) [of ready_app "engine_succeeds (Finite 10) []" "Finite 10" a_mov 1]
      ready_app_ready by (simp add: ready_app_engine revocations_def)
qed

theorem superseded_preview_handle_not_released_witness:
  "currentVideo (snd (handleFile (engine_succeeds (Finite 10) []) a_mov ready_app)) =
     Some \<lparr>vfile = a_mov, duration = Finite 10, preview_url = 1\<rparr> \<and>
   (1::nat) < next_url (snd (handleFile (engine_succeeds (Finite 10) []) a_mov ready_app)) \<and>
   \<not> Number_le (Finite 10) (Finite 3) \<and>
   (\<exists>v'. currentVideo (snd (handleFile (engine_succeeds (Finite 10) []) b_webm
        (snd (handleFile (engine_succeeds (Finite 10) []) a_mov ready_app)))) = Some v' \<and>
      vfile v' = b_webm \<and> preview_url v' \<noteq> 1 \<and>
      revocations (snd (handleFile (engine_succeeds (Finite 10) []) b_webm
        (snd (handleFile (engine_succeeds (Finite 10) []) a_mov ready_app)))) 1 =
      revocations (snd (handleFile (engine_succeeds (Finite 10) []) a_mov ready_app)) 1)"
  using superseded_preview_handle_not_released
      [of "snd (handleFile (engine_succeeds (Finite 10) []) a_mov ready_app)"
        "\<lparr>vfile = a_mov, duration = Finite 10, preview_url = 1\<rparr>"
        "engine_succeeds (Finite 10) []" "Finite 10" b_webm]
    first_selection ready_app_ready
  by simp

text \<open>
  The claim as stated fails: the selection of \<^verbatim>\<open>a.mov\<close> gets preview URL 1, the
  selection of \<^verbatim>\<open>b.webm\<close> that replaces it gets preview URL 5, and URL 1 has never been
  revoked.
\<close>

theorem preview_handle_not_released_counterexample:
  "map_option preview_url
     (currentVideo (snd (handleFile (engine_succeeds (Finite 10) []) a_mov ready_app))) = Some 1 \<and>
   map_option preview_url
     (currentVideo (snd (handleFile (engine_succeeds (Finite 10) []) b_webm
        (snd (handleFile (engine_succeeds (Finite 10) []) a_mov ready_app))))) = Some 5 \<and>
   revocations (snd (handleFile (engine_succeeds (Finite 10) []) b_webm
        (snd (handleFile (engine_succeeds (Finite 10) []) a_mov ready_app)))) 1 = 0"
  using handleFile_accepted_urls(1)
      [of "snd (handleFile (engine_succeeds (Finite 10) []) a_mov ready_app)"
        "engine_succeeds (Finite 10) []" "Finite 10" b_webm]
    handleFile_accepted_urls(2)
      [of "snd (handleFile (engine_succeeds (Finite 10) []) a_mov ready_app)"
        "engine_succeeds (Finite 10) []" "Finite 10" b_webm 1]
    first_selection ready_app_ready
  by (simp add: accepted_video_def)

section \<open>Download name and media type\<close>

lemma split_length: "length (split sep str) = Suc (length (filter (\<lambda>c. c = sep) str))"
  by (induction str) (auto split: list.splits)

lemma split_not_Nil [simp]: "split sep str \<noteq> []"
  using split_length [of sep str] by auto

lemma split_without_separator: "sep \<notin> set str \<Longrightarrow> split sep str = [str]"
  by (induction str) auto

lemma last_split_Cons:
  assumes "sep \<in> set str"
  shows "last (split sep (c # str)) = last (split sep str)"
proof -
  from assms have "filter (\<lambda>c. c = sep) str \<noteq> []" by (auto simp add: filter_empty_conv)
  then have "2 \<le> length (split sep str)" by (cases "filter (\<lambda>c. c = sep) str") (simp_all add: split_length)
  then obtain x y ys where "split sep str = x # y # ys"
    by (cases "split sep str"; cases "tl (split sep str)") auto
  then show ?thesis by simp
qed

lemma last_split_append:
  "last (split sep (base @ sep # ext)) = last (split sep ext)"
proof (induction base)
  case Nil
  then show ?case by simp
next
  case (Cons c cs)
  have "last (split sep (c # (cs @ sep # ext))) = last (split sep (cs @ sep # ext))"
    by (rule last_split_Cons) simp
  with Cons show ?case by simp
qed

lemma getFileExtension_append:
  assumes "ext \<noteq> []" and "CHR ''.'' \<notin> set ext"
  shows "getFileExtension (base @ ''.'' @ ext) = toLowerCase ext"
  using assms by (simp add: getFileExtension_def last_split_append split_without_separator toLowerCase_def)

lemma replace_extension_append:
  assumes "ext \<noteq> []" and "list_all (\<lambda>c. c \<noteq> CHR ''/'' \<and> c \<noteq> CHR ''.'') ext"
  shows "replace_extension (base @ ''.'' @ ext) = base"
  using assms by (induction base) simp_all

lemma getMimeType_mp4: "getMimeType (base @ ''.mp4'') = String ''video/mp4''"
proof -
  have "getFileExtension (base @ ''.'' @ ''mp4'') = toLowerCase ''mp4''"
    by (rule getFileExtension_append) simp_all
  then have "getFileExtension (base @ ''.mp4'') = ''mp4''"
    by (simp add: toLowerCase_def toLowerCase_char_def)
  then show ?thesis by (simp add: getMimeType_def mimeTypes_get_def mimeTypes_def)
qed

lemma run_on_ready_app:
  "fst (handleFile (engine_succeeds (Finite 10) ps) f ready_app) = TrimVideoCompleted"
  "map_option originalName (processedVideo (snd (handleFile (engine_succeeds (Finite 10) ps) f ready_app))) =
     Some (name f)"
  "map_option url (processedVideo (snd (handleFile (engine_succeeds (Finite 10) ps) f ready_app))) =
     Some 2"
  "map_option (\<lambda>pv. blob_type (blob pv))
     (processedVideo (snd (handleFile (engine_succeeds (Finite 10) ps) f ready_app))) =
     Some (getMimeType (name f))"
proof -
  show c: "fst (handleFile (engine_succeeds (Finite 10) ps) f ready_app) = TrimVideoCompleted"
    using ready_app_ready
    by (simp add: handleFile_succeeds [where d = "Finite 10" and out = "[1, 2, 3]"] ready_app_engine)
  show "map_option originalName (processedVideo (snd (handleFile (engine_succeeds (Finite 10) ps) f ready_app))) =
     Some (name f)"
    by (rule handleFile_completed [OF c]) simp
  show "map_option url (processedVideo (snd (handleFile (engine_succeeds (Finite 10) ps) f ready_app))) =
     Some 2"
    by (rule handleFile_completed [OF c]) (simp add: ready_app_engine)
  show "map_option (\<lambda>pv. blob_type (blob pv))
     (processedVideo (snd (handleFile (engine_succeeds (Finite 10) ps) f ready_app))) =
     Some (getMimeType (name f))"
    by (rule handleFile_completed [OF c]) simp
qed

text \<open>
  Claim C9, as the code has it. For a published result whose original file name is
  \<open>base.ext\<close>, with \<open>ext\<close> not empty and free of points and slashes, the download link
  points to the result and suggests the name \<open>base_trimmed.\<close> followed by \<open>ext\<close> in lower
  case: the extension is lower-cased, not kept as it is. The media type of a name ending in
  \<^verbatim>\<open>.mp4\<close> is \<^verbatim>\<open>video/mp4\<close>, and the result published by a completed run carries the
  media type computed from the name of the file and that name as its original name.
\<close>

theorem download_name_and_media_type:
  assumes "map_option originalName (processedVideo s) = Some (base @ ''.'' @ ext)"
    and "ext \<noteq> []" and "list_all (\<lambda>c. c \<noteq> CHR ''/'' \<and> c \<noteq> CHR ''.'') ext"
  shows "map_option download (downloadTrimmedVideo s) = Some (base @ ''_trimmed.'' @ toLowerCase ext) \<and>
    map_option href (downloadTrimmedVideo s) = map_option url (processedVideo s) \<and>
    getMimeType (base @ ''.mp4'') = String ''video/mp4'' \<and>
    (\<forall>env f s0. fst (handleFile env f s0) = TrimVideoCompleted \<longrightarrow>
       map_option originalName (processedVideo (snd (handleFile env f s0))) = Some (name f) \<and>
       map_option (\<lambda>pv. blob_type (blob pv)) (processedVideo (snd (handleFile env f s0))) =
         Some (getMimeType (name f)))"
proof (intro conjI allI impI)
  from assms(1) obtain pv where pv: "processedVideo s = Some pv" "originalName pv = base @ ''.'' @ ext"
    by (cases "processedVideo s") auto
  have "CHR ''.'' \<notin> set ext" using assms(3) by (auto simp add: list_all_iff)
  then have e: "getFileExtension (base @ ''.'' @ ext) = toLowerCase ext"
    using assms(2) by (intro getFileExtension_append)
  have r: "replace_extension (base @ ''.'' @ ext) = base"
    using assms(2,3) by (rule replace_extension_append)
  show "map_option download (downloadTrimmedVideo s) = Some (base @ ''_trimmed.'' @ toLowerCase ext)"
    using pv e r by (simp add: downloadTrimmedVideo_def)
  show "map_option href (downloadTrimmedVideo s) = map_option url (processedVideo s)"
    by (simp add: downloadTrimmedVideo_def Let_def split: option.splits)
  show "getMimeType (base @ ''.mp4'') = String ''video/mp4''" by (rule getMimeType_mp4)
  show "map_option originalName (processedVideo (snd (handleFile env f s0))) = Some (name f)"
    if "fst (handleFile env f s0) = TrimVideoCompleted" for env f s0
    using that by (rule handleFile_completed) simp
  show "map_option (\<lambda>pv. blob_type (blob pv)) (processedVideo (snd (handleFile env f s0))) =
         Some (getMimeType (name f))"
    if "fst (handleFile env f s0) = TrimVideoCompleted" for env f s0
    using that by (rule handleFile_completed) simp
qed

theorem download_name_and_media_type_witness:
  "map_option originalName
     (processedVideo (snd (handleFile (engine_succeeds (Finite 10) []) clip_mp4 ready_app))) =
     Some (''clip'' @ ''.'' @ ''mp4'') \<and>
   map_option download
     (downloadTrimmedVideo (snd (handleFile (engine_succeeds (Finite 10) []) clip_mp4 ready_app))) =
     Some ''clip_trimmed.mp4'' \<and>
   map_option href
     (downloadTrimmedVideo (snd (handleFile (engine_succeeds (Finite 10) []) clip_mp4 ready_app))) =
     Some 2 \<and>
   map_option (\<lambda>pv. blob_type (blob pv))
     (processedVideo (snd (handleFile (engine_succeeds (Finite 10) []) clip_mp4 ready_app))) =
     Some (String ''video/mp4'')"
  using download_name_and_media_type
      [of "snd (handleFile (engine_succeeds (Finite 10) []) clip_mp4 ready_app)" "''clip''" "''mp4''"]
    run_on_ready_app [of "[]" clip_mp4] getMimeType_mp4 [of "''clip''"]
  by (simp add: clip_mp4_def toLowerCase_def toLowerCase_char_def)

lemma download_after_run:
  "map_option download
     (downloadTrimmedVideo (snd (handleFile (engine_succeeds (Finite 10) []) f ready_app))) =
   Some (replace_extension (name f) @ ''_trimmed.'' @ getFileExtension (name f))"
  using run_on_ready_app(2) [of "[]" f]
  by (auto simp add: downloadTrimmedVideo_def Let_def split: option.splits)

text \<open>
  The claim as stated fails: for \<^verbatim>\<open>Clip.MP4\<close> the suggested name is
  \<^verbatim>\<open>Clip_trimmed.mp4\<close>, with another extension than the original one; for the name
  \<^verbatim>\<open>video\<close>, which has no extension to strip or to preserve, it is
  \<^verbatim>\<open>video_trimmed.video\<close>.
\<close>

theorem download_name_counterexample:
  "map_option download
     (downloadTrimmedVideo (snd (handleFile (engine_succeeds (Finite 10) []) Clip_MP4 ready_app))) =
     Some ''Clip_trimmed.mp4'' \<and>
   map_option download
     (downloadTrimmedVideo
       (snd (handleFile (engine_succeeds (Finite 10) []) video_without_extension ready_app))) =
     Some ''video_trimmed.video''"
  by (simp add: download_after_run Clip_MP4_def video_without_extension_def getFileExtension_def
      toLowerCase_def toLowerCase_char_def)

text \<open>
  Claim C10 does not hold of the code. The extension \<^verbatim>\<open>constructor\<close> is none of the seven
  known extensions, yet the media type computed for \<^verbatim>\<open>clip.constructor\<close> is not the default
  \<^verbatim>\<open>video/mp4\<close>: the property read on the table finds the inherited property
  \<^verbatim>\<open>constructor\<close>, the function \<^verbatim>\<open>Object\<close>, which is truthy, and returns it. A run on
  such a file completes, and the artifact it publishes was built with that function as its
  declared type. (For every extension other than the seven, \<^verbatim>\<open>constructor\<close> and
  \<^verbatim>\<open>__proto__\<close>, the default is returned: \<open>getMimeType_default\<close> below.)
\<close>

theorem inherited_key_media_type:
  "getMimeType ''clip.constructor'' = BuiltinFunction ''Object'' \<and>
   fst (handleFile (engine_succeeds (Finite 10) []) clip_constructor ready_app) = TrimVideoCompleted \<and>
   map_option (\<lambda>pv. blob_type (blob pv))
     (processedVideo (snd (handleFile (engine_succeeds (Finite 10) []) clip_constructor ready_app))) =
     Some (BuiltinFunction ''Object'')"
proof -
  have "getMimeType ''clip.constructor'' = BuiltinFunction ''Object''"
    by (simp add: getMimeType_def getFileExtension_def toLowerCase_def toLowerCase_char_def
      mimeTypes_get_def mimeTypes_def Object_prototype_get_def)
  then show ?thesis
    using run_on_ready_app(1,4) [of "[]" clip_constructor] by (simp add: clip_constructor_def)
qed

lemma toLowerCase_char_not_upper:
  "toLowerCase_char c \<notin> set ''ABCDEFGHIJKLMNOPQRSTUVWXYZ''"
  by (simp add: toLowerCase_char_def)

lemma getFileExtension_not_upper:
  "c \<in> set (getFileExtension filename) \<Longrightarrow> c \<notin> set ''ABCDEFGHIJKLMNOPQRSTUVWXYZ''"
  using toLowerCase_char_not_upper
  by (auto simp add: getFileExtension_def toLowerCase_def Let_def split: if_splits)

lemma getMimeType_default:
  assumes "getFileExtension filename \<notin> fst ` set mimeTypes"
    and "getFileExtension filename \<noteq> ''constructor''"
    and "getFileExtension filename \<noteq> ''__proto__''"
  shows "getMimeType filename = String ''video/mp4''"
proof -
  let ?ext = "getFileExtension filename"
  have up: "c \<notin> set ?ext" if "c \<in> set ''ABCDEFGHIJKLMNOPQRSTUVWXYZ''" for c
    using getFileExtension_not_upper [of c filename] that by blast
  have "?ext \<notin> set [''__defineGetter__'', ''__defineSetter__'', ''hasOwnProperty'',
        ''__lookupGetter__'', ''__lookupSetter__'', ''isPrototypeOf'', ''propertyIsEnumerable'',
        ''toString'', ''valueOf'', ''toLocaleString'']"
    using up [of "CHR ''G''"] up [of "CHR ''S''"] up [of "CHR ''O''"] up [of "CHR ''P''"]
      up [of "CHR ''I''"] up [of "CHR ''L''"] by auto
  then have "Object_prototype_get ?ext = Undefined"
    using assms(2,3) by (simp add: Object_prototype_get_def)
  moreover have "map_of mimeTypes ?ext = None" using assms(1) by (simp add: map_of_eq_None_iff)
  ultimately show ?thesis by (simp add: getMimeType_def mimeTypes_get_def)
qed

end
